theory Spec2Isabelle
  imports Complex_Main
begin

section \<open>Python values shared by the two solvers\<close>

text \<open>
  The solvers of \<^verbatim>\<open>pymanopt/solvers\<close> compute with Python floats. They are modelled as
  the reals: rounding, \<^verbatim>\<open>nan\<close> and \<^verbatim>\<open>inf\<close> are outside the model, and the one place where
  the source uses \<^verbatim>\<open>np.inf\<close> or \<^verbatim>\<open>np.nan\<close> as a value gets a constructor of its own.
  Exceptions are values of the type \<open>error\<close>; a computation that may raise returns
  \<open>error + 'a\<close>, with \<open>Inl\<close> the exception.

  Names are those of the source. The fields of a record are constants of the theory,
  so they carry a prefix: \<open>man_\<close> for the methods of the manifold, \<open>problem_\<close> for the
  attributes of the problem, \<open>cg_\<close> and \<open>pso_\<close> for the attributes of the two solver
  objects (the source's \<^verbatim>\<open>self._beta_type\<close> is \<open>cg_beta_type\<close>), \<open>cg_\<close> and \<open>ps_\<close> for the
  local variables of the two \<^verbatim>\<open>solve\<close> methods (the source's \<^verbatim>\<open>fbest\<close> is \<open>ps_fbest\<close>).
\<close>

datatype error =
    ValueError string
  | ZeroDivisionError
  | UnboundLocalError string

text \<open>Python's \<^verbatim>\<open>a / b\<close> on floats raises \<^verbatim>\<open>ZeroDivisionError\<close> when \<^verbatim>\<open>b\<close> is zero.\<close>

definition py_div :: "real \<Rightarrow> real \<Rightarrow> error + real" where
  "py_div a b = (if b = 0 then Inl ZeroDivisionError else Inr (a / b))"

text \<open>\<^verbatim>\<open>sep.join(xs)\<close>.\<close>

fun join :: "string \<Rightarrow> string list \<Rightarrow> string" where
  "join sep [] = []"
| "join sep [s] = s"
| "join sep (s # t # ts) = s @ sep @ join sep (t # ts)"

text \<open>Truth value of \<^verbatim>\<open>if stop_reason:\<close> for a value that is \<^verbatim>\<open>None\<close> or a string.\<close>

fun truthy :: "string option \<Rightarrow> bool" where
  "truthy None = False"
| "truthy (Some r) = (r \<noteq> [])"

subsection \<open>Manifold and problem\<close>

text \<open>
  The manifold and the problem are supplied by the caller; the solvers only call their
  methods. A manifold is the record of the methods the two solvers call. Points are of
  type \<open>'p\<close>; tangent vectors are of type \<open>'v\<close>, which the solvers add, negate and scale
  (a real vector space). The random draws (\<^verbatim>\<open>man.rand\<close>, \<^verbatim>\<open>man.randvec\<close>, \<^verbatim>\<open>rnd.rand\<close>) and
  the clock read by the stopping criterion take and return an explicit world state
  \<open>'w\<close>.
\<close>

record ('p, 'v, 'w) manifold =
  man_dim :: int
  man_rand :: "'w \<Rightarrow> 'p \<times> 'w"
  man_randvec :: "'p \<Rightarrow> 'w \<Rightarrow> 'v \<times> 'w"
  man_inner :: "'p \<Rightarrow> 'v \<Rightarrow> 'v \<Rightarrow> real"
  man_norm :: "'p \<Rightarrow> 'v \<Rightarrow> real"
  man_retr :: "'p \<Rightarrow> 'v \<Rightarrow> 'p"
  man_transp :: "'p \<Rightarrow> 'p \<Rightarrow> 'v \<Rightarrow> 'v"
  man_log :: "'p \<Rightarrow> 'p \<Rightarrow> 'v"

record ('p, 'v, 'w) problem =
  problem_manifold :: "('p, 'v, 'w) manifold"
  problem_verbosity :: int
  problem_cost :: "'p \<Rightarrow> real"
  problem_grad :: "'p \<Rightarrow> 'v"
  problem_precon :: "'p \<Rightarrow> 'v \<Rightarrow> 'v"

section \<open>Conjugate gradient (\<^verbatim>\<open>conjugate_gradient.py\<close>)\<close>

text \<open>
  \<^verbatim>\<open>BetaTypes\<close> is built by \<^verbatim>\<open>tools.make_enum\<close> from the four names of the source. A
  \<^verbatim>\<open>beta_type\<close> argument is any Python value; the solver only compares it with the four
  members, so a value equal to none of them is \<open>Other s\<close>, with \<open>s\<close> its \<^verbatim>\<open>str()\<close>.
\<close>

datatype beta_type =
    FletcherReeves
  | PolakRibiere
  | HestenesStiefel
  | HagerZhang
  | Other string

definition BetaTypes_fields :: "string list" where
  "BetaTypes_fields = [''FletcherReeves'', ''PolakRibiere'', ''HestenesStiefel'', ''HagerZhang'']"

text \<open>\<^verbatim>\<open>orth_value\<close>: a float, \<^verbatim>\<open>np.inf\<close> by default.\<close>

datatype threshold = Finite real | Infinity

fun reaches :: "real \<Rightarrow> threshold \<Rightarrow> bool" where
  "reaches a (Finite t) = (a \<ge> t)"
| "reaches a Infinity = False"

text \<open>
  The solver object. \<open>cg_linesearch_proto\<close> is \<^verbatim>\<open>self._linesearch\<close>, \<open>cg_linesearch\<close> is
  \<^verbatim>\<open>self.linesearch\<close>; a line-search object is its state \<open>'ls\<close>.
\<close>

record 'ls ConjugateGradient =
  cg_beta_type :: beta_type
  cg_orth_value :: threshold
  cg_linesearch_proto :: 'ls
  cg_linesearch :: "'ls option"
  cg_logverbosity :: int

text \<open>
  \<^verbatim>\<open>ConjugateGradient.__init__\<close>. \<open>LineSearchAdaptive\<close> is the object that
  \<^verbatim>\<open>LineSearchAdaptive()\<close> builds; \<open>logverbosity\<close> is the one attribute of the base class
  that \<^verbatim>\<open>solve\<close> reads. The result is a sum so that a raise would be visible; there is none.
\<close>

definition ConjugateGradient_init ::
  "'ls \<Rightarrow> beta_type \<Rightarrow> threshold \<Rightarrow> 'ls option \<Rightarrow> int \<Rightarrow> error + 'ls ConjugateGradient" where
  "ConjugateGradient_init LineSearchAdaptive beta_type orth_value linesearch logverbosity =
     Inr \<lparr> cg_beta_type = beta_type,
           cg_orth_value = orth_value,
           cg_linesearch_proto =
             (case linesearch of None \<Rightarrow> LineSearchAdaptive | Some l \<Rightarrow> l),
           cg_linesearch = None,
           cg_logverbosity = logverbosity \<rparr>"

text \<open>The local variables of \<^verbatim>\<open>solve\<close> that live across iterations.\<close>

record ('p, 'v, 'ls, 'w) cg_state =
  cg_x :: 'p
  cg_cost :: real
  cg_grad :: 'v
  cg_gradnorm :: real
  cg_Pgrad :: 'v
  cg_gradPgrad :: real
  cg_desc_dir :: 'v
  cg_iter :: int
  cg_stepsize :: "real option"
  cg_ls :: 'ls
  cg_world :: 'w

text \<open>
  The line search and the stopping criterion are code of other modules: parameters.
  \<^verbatim>\<open>linesearch.search(objective, man, x, desc_dir, cost, df0)\<close> returns the step size and
  the new point and updates the line-search object.
  \<^verbatim>\<open>self._check_stopping_criterion(time0, gradnorm=, iter=, stepsize=)\<close> returns a reason
  or \<^verbatim>\<open>None\<close>; the step size is \<^verbatim>\<open>nan\<close> (\<open>None\<close>) before the first search.
\<close>

type_synonym ('p, 'v, 'ls, 'w) search =
  "('p \<Rightarrow> real) \<Rightarrow> ('p, 'v, 'w) manifold \<Rightarrow> 'p \<Rightarrow> 'v \<Rightarrow> real \<Rightarrow> real \<Rightarrow> 'ls
     \<Rightarrow> (real \<times> 'p) \<times> 'ls"

type_synonym 'w cg_check =
  "'w \<Rightarrow> real \<Rightarrow> int \<Rightarrow> real option \<Rightarrow> string option \<times> 'w"

text \<open>Lines 145-160: the directional derivative and the reset to steepest descent.\<close>

definition cg_descent_guard ::
  "('p, 'v, 'w) manifold \<Rightarrow> 'p \<Rightarrow> 'v \<Rightarrow> 'v \<Rightarrow> real \<Rightarrow> 'v \<Rightarrow> ('v::real_vector) \<times> real" where
  "cg_descent_guard man x grad Pgrad gradPgrad desc_dir =
     (let df0 = man_inner man x grad desc_dir
      in if df0 \<ge> 0 then (- Pgrad, - gradPgrad) else (desc_dir, df0))"

text \<open>Lines 220-226: the message of the \<^verbatim>\<open>ValueError\<close>.\<close>

definition unknown_beta_type :: "string \<Rightarrow> error" where
  "unknown_beta_type s =
     (let types = join '', '' (map (\<lambda>t. ''BetaTypes.'' @ t) BetaTypes_fields)
      in ValueError (''Unknown beta_type '' @ s @ ''. Should be one of '' @ types @ ''.''))"

text \<open>
  Lines 186-226: \<^verbatim>\<open>beta\<close> by the configured rule; \<open>desc_dir\<close> is the direction already
  transported to \<open>newx\<close> (line 184), \<open>gradnorm\<close> the norm at the old point.
\<close>

definition cg_beta ::
  "('p, 'v, 'w) manifold \<Rightarrow> beta_type \<Rightarrow> 'p \<Rightarrow> 'p \<Rightarrow> 'v \<Rightarrow> 'v \<Rightarrow> 'v \<Rightarrow> 'v \<Rightarrow> real \<Rightarrow> real
     \<Rightarrow> real \<Rightarrow> ('v::real_vector) \<Rightarrow> error + real" where
  "cg_beta man bt x newx newgrad oldgrad Pgrad Pnewgrad gradPgrad newgradPnewgrad
     gradnorm desc_dir =
     (case bt of
        FletcherReeves \<Rightarrow> py_div newgradPnewgrad gradPgrad
      | PolakRibiere \<Rightarrow>
          (let diff = newgrad - oldgrad;
               ip_diff = man_inner man newx Pnewgrad diff
           in case py_div ip_diff gradPgrad of
                Inl e \<Rightarrow> Inl e
              | Inr q \<Rightarrow> Inr (max 0 q))
      | HestenesStiefel \<Rightarrow>
          (let diff = newgrad - oldgrad;
               ip_diff = man_inner man newx Pnewgrad diff
           in case py_div ip_diff (man_inner man newx diff desc_dir) of
                Inl ZeroDivisionError \<Rightarrow> Inr 1
              | Inl e \<Rightarrow> Inl e
              | Inr q \<Rightarrow> Inr (max 0 q))
      | HagerZhang \<Rightarrow>
          (let diff = newgrad - oldgrad;
               Poldgrad = man_transp man x newx Pgrad;
               Pdiff = Pnewgrad - Poldgrad;
               deno = man_inner man newx diff desc_dir;
               numo = man_inner man newx diff Pnewgrad
           in case py_div (2 * man_inner man newx diff Pdiff
                             * man_inner man newx desc_dir newgrad) deno of
                Inl e \<Rightarrow> Inl e
              | Inr c \<Rightarrow>
                  (let numo = numo - c
                   in case py_div numo deno of
                        Inl e \<Rightarrow> Inl e
                      | Inr beta \<Rightarrow>
                          (let desc_dir_norm = man_norm man newx desc_dir
                           in case py_div (- 1) (desc_dir_norm * min (1 / 100) gradnorm) of
                                Inl e \<Rightarrow> Inl e
                              | Inr eta_HZ \<Rightarrow> Inr (max beta eta_HZ))))
      | Other s \<Rightarrow> Inl (unknown_beta_type s))"

text \<open>
  Lines 175-228: the Powell restart test and the next search direction. The result is
  the pair of \<^verbatim>\<open>beta\<close> and the new \<^verbatim>\<open>desc_dir\<close>.
\<close>

definition cg_direction ::
  "('p, 'v, 'w) manifold \<Rightarrow> beta_type \<Rightarrow> threshold \<Rightarrow> 'p \<Rightarrow> 'p \<Rightarrow> 'v \<Rightarrow> 'v \<Rightarrow> 'v \<Rightarrow> 'v
     \<Rightarrow> real \<Rightarrow> real \<Rightarrow> real \<Rightarrow> ('v::real_vector) \<Rightarrow> error + real \<times> 'v" where
  "cg_direction man bt orth_value x newx grad newgrad Pgrad Pnewgrad gradPgrad
     newgradPnewgrad gradnorm desc_dir =
     (let oldgrad = man_transp man x newx grad
      in case py_div (man_inner man newx oldgrad Pnewgrad) newgradPnewgrad of
           Inl e \<Rightarrow> Inl e
         | Inr orth_grads \<Rightarrow>
             if reaches \<bar>orth_grads\<bar> orth_value then Inr (0, - Pnewgrad)
             else
               (let desc_dir = man_transp man x newx desc_dir
                in case cg_beta man bt x newx newgrad oldgrad Pgrad Pnewgrad gradPgrad
                          newgradPnewgrad gradnorm desc_dir of
                     Inl e \<Rightarrow> Inl e
                   | Inr beta \<Rightarrow> Inr (beta, - Pnewgrad + beta *\<^sub>R desc_dir)))"

text \<open>Lines 145-238: the body of the loop after the stopping test.\<close>

definition cg_iteration ::
  "('p, 'v, 'ls, 'w) search \<Rightarrow> ('p, 'v, 'w) problem \<Rightarrow> 'ls ConjugateGradient
     \<Rightarrow> ('p, 'v::real_vector, 'ls, 'w) cg_state \<Rightarrow> error + ('p, 'v, 'ls, 'w) cg_state" where
  "cg_iteration search problem self s =
     (let man = problem_manifold problem;
          objective = problem_cost problem;
          gradient = problem_grad problem;
          x = cg_x s;
          (desc_dir, df0) =
            cg_descent_guard man x (cg_grad s) (cg_Pgrad s) (cg_gradPgrad s) (cg_desc_dir s);
          ((stepsize, newx), ls) = search objective man x desc_dir (cg_cost s) df0 (cg_ls s);
          newcost = objective newx;
          newgrad = gradient newx;
          newgradnorm = man_norm man newx newgrad;
          Pnewgrad = problem_precon problem newx newgrad;
          newgradPnewgrad = man_inner man newx newgrad Pnewgrad
      in case cg_direction man (cg_beta_type self) (cg_orth_value self) x newx (cg_grad s)
                newgrad (cg_Pgrad s) Pnewgrad (cg_gradPgrad s) newgradPnewgrad
                (cg_gradnorm s) desc_dir of
           Inl e \<Rightarrow> Inl e
         | Inr (beta, desc_dir) \<Rightarrow>
             Inr (s\<lparr> cg_x := newx, cg_cost := newcost, cg_grad := newgrad,
                     cg_Pgrad := Pnewgrad, cg_gradnorm := newgradnorm,
                     cg_gradPgrad := newgradPnewgrad, cg_desc_dir := desc_dir,
                     cg_iter := cg_iter s + 1, cg_stepsize := Some stepsize,
                     cg_ls := ls \<rparr>))"

text \<open>
  Lines 127-238: the \<^verbatim>\<open>while True\<close> loop. It may run forever; the model counts the
  stopping tests it may still make, and \<open>None\<close> is the loop still running when the
  count is used up. The result is the state at the \<^verbatim>\<open>break\<close> with the reason.
\<close>

fun cg_loop ::
  "nat \<Rightarrow> ('p, 'v, 'ls, 'w) search \<Rightarrow> 'w cg_check \<Rightarrow> ('p, 'v, 'w) problem \<Rightarrow> 'ls ConjugateGradient
     \<Rightarrow> ('p, 'v::real_vector, 'ls, 'w) cg_state
     \<Rightarrow> (error + ('p, 'v, 'ls, 'w) cg_state \<times> string) option" where
  "cg_loop 0 search check problem self s = None"
| "cg_loop (Suc n) search check problem self s =
     (let (stop_reason, w) = check (cg_world s) (cg_gradnorm s) (cg_iter s + 1) (cg_stepsize s);
          s = s\<lparr> cg_world := w \<rparr>
      in if truthy stop_reason then Some (Inr (s, the stop_reason))
         else case cg_iteration search problem self s of
                Inl e \<Rightarrow> Some (Inl e)
              | Inr s' \<Rightarrow> cg_loop n search check problem self s')"

text \<open>
  \<^verbatim>\<open>ConjugateGradient.solve\<close>: lines 74-125 build the first state, the loop runs, and the
  last \<^verbatim>\<open>x\<close> is returned (with the reason, the final state and the solver, whose
  \<^verbatim>\<open>linesearch\<close> attribute is the object the search has updated). Printing and the
  optimisation log are left out.
\<close>

definition ConjugateGradient_solve ::
  "nat \<Rightarrow> ('p, 'v, 'ls, 'w) search \<Rightarrow> 'w cg_check \<Rightarrow> 'ls ConjugateGradient
     \<Rightarrow> ('p, 'v::real_vector, 'w) problem \<Rightarrow> 'p option \<Rightarrow> bool \<Rightarrow> 'w
     \<Rightarrow> (error + 'p \<times> string \<times> ('p, 'v, 'ls, 'w) cg_state \<times> 'ls ConjugateGradient) option" where
  "ConjugateGradient_solve fuel search check self problem x reuselinesearch w =
     (let man = problem_manifold problem;
          objective = problem_cost problem;
          gradient = problem_grad problem;
          linesearch =
            (case cg_linesearch self of
               None \<Rightarrow> cg_linesearch_proto self
             | Some l \<Rightarrow> if \<not> reuselinesearch then cg_linesearch_proto self else l);
          (x, w) = (case x of None \<Rightarrow> man_rand man w | Some x \<Rightarrow> (x, w));
          cost = objective x;
          grad = gradient x;
          gradnorm = man_norm man x grad;
          Pgrad = problem_precon problem x grad;
          gradPgrad = man_inner man x grad Pgrad;
          desc_dir = - Pgrad;
          s = \<lparr> cg_x = x, cg_cost = cost, cg_grad = grad, cg_gradnorm = gradnorm,
                cg_Pgrad = Pgrad, cg_gradPgrad = gradPgrad, cg_desc_dir = desc_dir,
                cg_iter = 0, cg_stepsize = None, cg_ls = linesearch, cg_world = w \<rparr>
      in case cg_loop fuel search check problem self s of
           None \<Rightarrow> None
         | Some (Inl e) \<Rightarrow> Some (Inl e)
         | Some (Inr (s', stop_reason)) \<Rightarrow>
             Some (Inr (cg_x s', stop_reason, s',
                        self\<lparr> cg_linesearch := Some (cg_ls s') \<rparr>)))"

section \<open>Particle swarm (\<^verbatim>\<open>particle_swarm.py\<close>)\<close>

text \<open>The solver object, as \<^verbatim>\<open>ParticleSwarm.__init__\<close> stores its arguments.\<close>

record ParticleSwarm =
  pso_maxcostevals :: "int option"
  pso_maxiter :: "int option"
  pso_populationsize :: "int option"
  pso_nostalgia :: real
  pso_social :: real
  pso_logverbosity :: int

text \<open>
  The argument \<^verbatim>\<open>x\<close> of \<^verbatim>\<open>solve\<close>: \<^verbatim>\<open>None\<close>, a value without \<^verbatim>\<open>__iter__\<close>, or a list of
  points.
\<close>

datatype 'p x_arg = X_None | X_not_iterable | X_list "'p list"

text \<open>
  The variables of \<^verbatim>\<open>solve\<close>. \<open>ps_maxcostevals\<close>, \<open>ps_maxiter\<close> and \<open>ps_populationsize\<close>
  are the attributes of \<^verbatim>\<open>self\<close> after lines 64-83 have resolved them; \<open>ps_stdout\<close> is
  what \<^verbatim>\<open>print\<close> has written (the column printer is left out); \<open>ps_objective_calls\<close>
  counts the calls of \<^verbatim>\<open>objective\<close> and is read by no code.
\<close>

record ('p, 'v, 'w) pso_state =
  ps_maxcostevals :: int
  ps_maxiter :: int
  ps_populationsize :: int
  ps_x :: "'p list"
  ps_y :: "'p list"
  ps_xprev :: "'p list"
  ps_v :: "'v list"
  ps_costs :: "real list"
  ps_fy :: "real list"
  ps_costevals :: int
  ps_fbest :: real
  ps_xbest :: 'p
  ps_iter :: int
  ps_world :: 'w
  ps_stdout :: "string list"
  ps_objective_calls :: nat

text \<open>
  \<^verbatim>\<open>self._check_stopping_criterion(time0, iter=, costevals=)\<close> of the base class: a
  parameter, given the world (the clock), \<^verbatim>\<open>self._maxiter\<close>, \<^verbatim>\<open>self._maxcostevals\<close>,
  \<^verbatim>\<open>iter\<close> and \<^verbatim>\<open>costevals\<close>.
\<close>

type_synonym 'w pso_check = "'w \<Rightarrow> int \<Rightarrow> int \<Rightarrow> int \<Rightarrow> int \<Rightarrow> string option \<times> 'w"

text \<open>Line 74: \<^verbatim>\<open>[man.rand() for i in range(n)]\<close>.\<close>

fun rand_points :: "('w \<Rightarrow> 'p \<times> 'w) \<Rightarrow> nat \<Rightarrow> 'w \<Rightarrow> 'p list \<times> 'w" where
  "rand_points rand 0 wd = ([], wd)"
| "rand_points rand (Suc n) wd =
     (let (p, wd) = rand wd;
          (ps, wd) = rand_points rand n wd
      in (p # ps, wd))"

text \<open>Line 92: \<^verbatim>\<open>[man.randvec(xi) for xi in x]\<close>.\<close>

fun randvecs :: "('p \<Rightarrow> 'w \<Rightarrow> 'v \<times> 'w) \<Rightarrow> 'p list \<Rightarrow> 'w \<Rightarrow> 'v list \<times> 'w" where
  "randvecs randvec [] wd = ([], wd)"
| "randvecs randvec (xi # xs) wd =
     (let (u, wd) = randvec xi wd;
          (us, wd) = randvecs randvec xs wd
      in (u # us, wd))"

text \<open>
  \<^verbatim>\<open>costs.argmin()\<close> of NumPy: the first index of the least entry; a \<^verbatim>\<open>ValueError\<close> on an
  empty array.
\<close>

definition argmin :: "real list \<Rightarrow> error + nat" where
  "argmin cs =
     (case cs of
        [] \<Rightarrow> Inl (ValueError ''attempt to get argmin of an empty sequence'')
      | c # cs' \<Rightarrow> Inr (length (takeWhile (\<lambda>a. a \<noteq> fold min cs' c) cs)))"

text \<open>Lines 73-83: the initial population, the adjusted population size, the output.\<close>

definition pso_population ::
  "('p, 'v, 'w) manifold \<Rightarrow> int \<Rightarrow> 'p x_arg \<Rightarrow> 'w \<Rightarrow> error + 'p list \<times> int \<times> 'w \<times> string list" where
  "pso_population man populationsize x wd =
     (case x of
        X_None \<Rightarrow>
          (let (x, wd) = rand_points (man_rand man) (nat populationsize) wd
           in Inr (x, populationsize, wd, []))
      | X_not_iterable \<Rightarrow> Inl (ValueError ''The initial population x must be iterable'')
      | X_list x \<Rightarrow>
          if int (length x) \<noteq> populationsize
          then Inr (x, int (length x), wd,
                    [''The population size was forced to the size of the given initial population''])
          else Inr (x, populationsize, wd, []))"

text \<open>Lines 56-123: everything before the loop.\<close>

definition pso_init ::
  "ParticleSwarm \<Rightarrow> ('p, 'v, 'w) problem \<Rightarrow> 'p x_arg \<Rightarrow> 'w \<Rightarrow> error + ('p, 'v, 'w) pso_state" where
  "pso_init self problem x wd =
     (let man = problem_manifold problem;
          objective = problem_cost problem;
          dim = man_dim man;
          maxcostevals =
            (case pso_maxcostevals self of None \<Rightarrow> max 5000 (2 * dim) | Some m \<Rightarrow> m);
          maxiter = (case pso_maxiter self of None \<Rightarrow> max 500 (4 * dim) | Some m \<Rightarrow> m);
          populationsize =
            (case pso_populationsize self of None \<Rightarrow> min 40 (10 * dim) | Some m \<Rightarrow> m)
      in case pso_population man populationsize x wd of
           Inl e \<Rightarrow> Inl e
         | Inr (x, populationsize, wd, out) \<Rightarrow>
             (let y = x;
                  xprev = x;
                  (v, wd) = randvecs (man_randvec man) x wd;
                  costs = map objective x;
                  fy = costs;
                  costevals = populationsize
              in case argmin costs of
                   Inl e \<Rightarrow> Inl e
                 | Inr imin \<Rightarrow>
                     Inr \<lparr> ps_maxcostevals = maxcostevals, ps_maxiter = maxiter,
                           ps_populationsize = populationsize,
                           ps_x = x, ps_y = y, ps_xprev = xprev, ps_v = v,
                           ps_costs = costs, ps_fy = fy, ps_costevals = costevals,
                           ps_fbest = costs ! imin, ps_xbest = x ! imin, ps_iter = 0,
                           ps_world = wd, ps_stdout = out,
                           ps_objective_calls = length x \<rparr>))"

text \<open>
  Lines 131-136: the stopping criterion, asked once for each particle until it gives a
  reason. \<open>stop_reason\<close> is the value the variable has before the \<^verbatim>\<open>for\<close> loop.
\<close>

fun pso_check_particles ::
  "'w pso_check \<Rightarrow> int \<Rightarrow> int \<Rightarrow> int \<Rightarrow> int \<Rightarrow> 'p list \<Rightarrow> string option \<Rightarrow> 'w
     \<Rightarrow> string option \<times> 'w" where
  "pso_check_particles check maxiter maxcostevals iter costevals [] stop_reason wd =
     (stop_reason, wd)"
| "pso_check_particles check maxiter maxcostevals iter costevals (xi # xs) stop_reason wd =
     (let (stop_reason, wd) = check wd maxiter maxcostevals iter costevals
      in if stop_reason \<noteq> None then (stop_reason, wd)
         else pso_check_particles check maxiter maxcostevals iter costevals xs stop_reason wd)"

text \<open>Line 145.\<close>

definition inertia_weight :: "int \<Rightarrow> int \<Rightarrow> error + real" where
  "inertia_weight iter maxiter =
     (case py_div (of_int iter) (of_int maxiter) of
        Inl e \<Rightarrow> Inl e
      | Inr q \<Rightarrow> Inr (4 / 10 + 5 / 10 * (1 - q)))"

text \<open>Lines 148-162, for one particle \<open>i\<close>; \<open>w\<close> is the inertia weight.\<close>

definition pso_velocity_step ::
  "('w \<Rightarrow> real \<times> 'w) \<Rightarrow> ('p, 'v, 'w) manifold \<Rightarrow> ParticleSwarm \<Rightarrow> real \<Rightarrow> nat
     \<Rightarrow> ('p, 'v::real_vector, 'w) pso_state \<Rightarrow> ('p, 'v, 'w) pso_state" where
  "pso_velocity_step rnd_rand man self w i s =
     (let xi = ps_x s ! i;
          yi = ps_y s ! i;
          xiprev = ps_xprev s ! i;
          vi = ps_v s ! i;
          inertia = w *\<^sub>R man_transp man xiprev xi vi;
          (r1, wd) = rnd_rand (ps_world s);
          nostalgia = (r1 * pso_nostalgia self) *\<^sub>R man_log man xi yi;
          (r2, wd) = rnd_rand wd;
          social = (r2 * pso_social self) *\<^sub>R man_log man xi (ps_xbest s)
      in s\<lparr> ps_v := (ps_v s)[i := inertia + nostalgia + social], ps_world := wd \<rparr>)"

text \<open>
  Lines 168-183, for one particle \<open>i\<close>. \<^verbatim>\<open>xi\<close> is the entry of \<^verbatim>\<open>x\<close> that \<^verbatim>\<open>enumerate\<close>
  handed out, that is the position before line 170 replaces it.
\<close>

definition pso_update_step ::
  "('p, 'v, 'w) manifold \<Rightarrow> ('p \<Rightarrow> real) \<Rightarrow> nat \<Rightarrow> ('p, 'v, 'w) pso_state
     \<Rightarrow> ('p, 'v, 'w) pso_state" where
  "pso_update_step man objective i s =
     (let xi = ps_x s ! i;
          s = s\<lparr> ps_x := (ps_x s)[i := man_retr man xi (ps_v s ! i)] \<rparr>;
          fxi = objective xi;
          s = s\<lparr> ps_objective_calls := ps_objective_calls s + 1 \<rparr>;
          s = s\<lparr> ps_costs := (ps_costs s)[i := fxi] \<rparr>
      in if fxi < ps_fy s ! i
         then (let s = s\<lparr> ps_fy := (ps_fy s)[i := fxi] \<rparr>;
                   s = s\<lparr> ps_y := (ps_y s)[i := xi] \<rparr>
               in if ps_fy s ! i < ps_fbest s
                  then s\<lparr> ps_fbest := ps_fy s ! i, ps_xbest := xi \<rparr>
                  else s)
         else s)"

text \<open>Lines 143-184: the body of the loop after the stopping test.\<close>

definition pso_iteration ::
  "('w \<Rightarrow> real \<times> 'w) \<Rightarrow> ParticleSwarm \<Rightarrow> ('p, 'v, 'w) problem
     \<Rightarrow> ('p, 'v::real_vector, 'w) pso_state \<Rightarrow> error + ('p, 'v, 'w) pso_state" where
  "pso_iteration rnd_rand self problem s =
     (let man = problem_manifold problem;
          objective = problem_cost problem
      in case inertia_weight (ps_iter s) (ps_maxiter s) of
           Inl e \<Rightarrow> Inl e
         | Inr w \<Rightarrow>
             (let s = fold (pso_velocity_step rnd_rand man self w) [0..<length (ps_x s)] s;
                  s = s\<lparr> ps_xprev := ps_x s \<rparr>;
                  s = fold (pso_update_step man objective) [0..<length (ps_x s)] s
              in Inr (s\<lparr> ps_costevals := ps_costevals s + ps_populationsize s \<rparr>)))"

text \<open>
  Lines 125-184: the \<^verbatim>\<open>while True\<close> loop, with a count of the passes it may still
  make; \<open>None\<close> is the loop still running when the count is used up. With no particle
  the \<^verbatim>\<open>for\<close> loop of line 131 binds nothing and line 137 reads an unbound variable.
\<close>

fun pso_loop ::
  "nat \<Rightarrow> 'w pso_check \<Rightarrow> ('w \<Rightarrow> real \<times> 'w) \<Rightarrow> ParticleSwarm \<Rightarrow> ('p, 'v, 'w) problem
     \<Rightarrow> ('p, 'v::real_vector, 'w) pso_state
     \<Rightarrow> (error + ('p, 'v, 'w) pso_state \<times> string) option" where
  "pso_loop 0 check rnd_rand self problem s = None"
| "pso_loop (Suc n) check rnd_rand self problem s =
     (let s = s\<lparr> ps_iter := ps_iter s + 1 \<rparr>
      in if ps_x s = [] then Some (Inl (UnboundLocalError ''stop_reason''))
         else
           (let (stop_reason, wd) =
                  pso_check_particles check (ps_maxiter s) (ps_maxcostevals s) (ps_iter s)
                    (ps_costevals s) (ps_x s) None (ps_world s);
                s = s\<lparr> ps_world := wd \<rparr>
            in if truthy stop_reason
               then Some (Inr (if problem_verbosity problem \<ge> 1
                               then s\<lparr> ps_stdout := ps_stdout s @ [the stop_reason, []] \<rparr>
                               else s,
                               the stop_reason))
               else case pso_iteration rnd_rand self problem s of
                      Inl e \<Rightarrow> Some (Inl e)
                    | Inr s' \<Rightarrow> pso_loop n check rnd_rand self problem s'))"

text \<open>
  \<^verbatim>\<open>ParticleSwarm.solve\<close>: the value returned is \<^verbatim>\<open>xbest\<close> (alone or with the log,
  by \<^verbatim>\<open>logverbosity\<close>); the model returns it with the reason and the final state.
\<close>

definition ParticleSwarm_solve ::
  "nat \<Rightarrow> 'w pso_check \<Rightarrow> ('w \<Rightarrow> real \<times> 'w) \<Rightarrow> ParticleSwarm \<Rightarrow> ('p, 'v::real_vector, 'w) problem
     \<Rightarrow> 'p x_arg \<Rightarrow> 'w \<Rightarrow> (error + 'p \<times> string \<times> ('p, 'v, 'w) pso_state) option" where
  "ParticleSwarm_solve fuel check rnd_rand self problem x wd =
     (case pso_init self problem x wd of
        Inl e \<Rightarrow> Some (Inl e)
      | Inr s \<Rightarrow>
          (case pso_loop fuel check rnd_rand self problem s of
             None \<Rightarrow> None
           | Some (Inl e) \<Rightarrow> Some (Inl e)
           | Some (Inr (s', stop_reason)) \<Rightarrow> Some (Inr (ps_xbest s', stop_reason, s'))))"

subsection \<open>What the loop maintains\<close>

text \<open>
  All the lists of the state are built from \<^verbatim>\<open>x\<close> and keep its length; the swarm is
  not empty once \<^verbatim>\<open>argmin\<close> has returned.
\<close>

definition pso_wf :: "('p, 'v, 'w) pso_state \<Rightarrow> bool" where
  "pso_wf s \<longleftrightarrow>
     ps_x s \<noteq> [] \<and>
     length (ps_y s) = length (ps_x s) \<and>
     length (ps_xprev s) = length (ps_x s) \<and>
     length (ps_v s) = length (ps_x s) \<and>
     length (ps_costs s) = length (ps_x s) \<and>
     length (ps_fy s) = length (ps_x s) \<and>
     int (length (ps_x s)) = ps_populationsize s"

text \<open>
  The global best is the least personal best, and \<^verbatim>\<open>xbest\<close> is the personal-best
  position of a particle whose personal-best cost is \<^verbatim>\<open>fbest\<close>.
\<close>

definition pso_best_inv :: "('p, 'v, 'w) pso_state \<Rightarrow> bool" where
  "pso_best_inv s \<longleftrightarrow>
     ps_fbest s = Min (set (ps_fy s)) \<and>
     (ps_fbest s, ps_xbest s) \<in> set (zip (ps_fy s) (ps_y s))"

text \<open>What the velocity loop leaves alone.\<close>

definition same_bests :: "('p, 'v, 'w) pso_state \<Rightarrow> ('p, 'v, 'w) pso_state \<Rightarrow> bool" where
  "same_bests s t \<longleftrightarrow>
     ps_x t = ps_x s \<and> ps_y t = ps_y s \<and> ps_xprev t = ps_xprev s \<and>
     ps_costs t = ps_costs s \<and> ps_fy t = ps_fy s \<and> ps_fbest t = ps_fbest s \<and>
     ps_xbest t = ps_xbest s \<and> ps_stdout t = ps_stdout s \<and> ps_maxiter t = ps_maxiter s \<and>
     ps_maxcostevals t = ps_maxcostevals s \<and> ps_populationsize t = ps_populationsize s \<and>
     ps_costevals t = ps_costevals s \<and> ps_iter t = ps_iter s \<and>
     ps_objective_calls t = ps_objective_calls s \<and> length (ps_v t) = length (ps_v s)"

text \<open>What the update loop leaves alone or only lowers.\<close>

definition lowered :: "('p, 'v, 'w) pso_state \<Rightarrow> ('p, 'v, 'w) pso_state \<Rightarrow> bool" where
  "lowered s t \<longleftrightarrow>
     ps_v t = ps_v s \<and> ps_xprev t = ps_xprev s \<and> ps_world t = ps_world s \<and>
     ps_stdout t = ps_stdout s \<and> ps_maxiter t = ps_maxiter s \<and>
     ps_maxcostevals t = ps_maxcostevals s \<and> ps_populationsize t = ps_populationsize s \<and>
     ps_costevals t = ps_costevals s \<and> ps_iter t = ps_iter s \<and>
     length (ps_x t) = length (ps_x s) \<and> length (ps_y t) = length (ps_y s) \<and>
     length (ps_fy t) = length (ps_fy s) \<and> length (ps_costs t) = length (ps_costs s) \<and>
     ps_fbest t \<le> ps_fbest s \<and> (\<forall>j. ps_fy t ! j \<le> ps_fy s ! j)"

text \<open>
  The states in which the loop that starts in \<open>s0\<close> asks the stopping criterion: line
  126 has counted the pass, lines 131-136 are about to run.
\<close>

inductive pso_at_check ::
  "'w pso_check \<Rightarrow> ('w \<Rightarrow> real \<times> 'w) \<Rightarrow> ParticleSwarm \<Rightarrow> ('p, 'v::real_vector, 'w) problem
     \<Rightarrow> ('p, 'v, 'w) pso_state \<Rightarrow> ('p, 'v, 'w) pso_state \<Rightarrow> bool"
  for check rnd_rand self problem s0 where
  first_pass: "pso_at_check check rnd_rand self problem s0 (s0\<lparr> ps_iter := ps_iter s0 + 1 \<rparr>)"
| next_pass:
    "pso_at_check check rnd_rand self problem s0 s \<Longrightarrow>
     ps_x s \<noteq> [] \<Longrightarrow>
     pso_check_particles check (ps_maxiter s) (ps_maxcostevals s) (ps_iter s)
       (ps_costevals s) (ps_x s) None (ps_world s) = (stop_reason, wd) \<Longrightarrow>
     \<not> truthy stop_reason \<Longrightarrow>
     pso_iteration rnd_rand self problem (s\<lparr> ps_world := wd \<rparr>) = Inr s' \<Longrightarrow>
     pso_at_check check rnd_rand self problem s0 (s'\<lparr> ps_iter := ps_iter s' + 1 \<rparr>)"

section \<open>A concrete setting\<close>

text \<open>
  The real line as a flat manifold of dimension one, with a world that counts the
  draws, a quadratic cost on it, two line searches with a fixed step, and stopping
  criteria that count passes.
\<close>

definition real_line :: "(real, real, nat) manifold" where
  "real_line =
     \<lparr> man_dim = 1,
       man_rand = (\<lambda>wd. (of_nat wd, Suc wd)),
       man_randvec = (\<lambda>x wd. (1, Suc wd)),
       man_inner = (\<lambda>x u v. u * v),
       man_norm = (\<lambda>x u. \<bar>u\<bar>),
       man_retr = (\<lambda>x u. x + u),
       man_transp = (\<lambda>x y u. u),
       man_log = (\<lambda>x y. y - x) \<rparr>"

definition square_problem :: "(real, real, nat) problem" where
  "square_problem =
     \<lparr> problem_manifold = real_line,
       problem_verbosity = 0,
       problem_cost = (\<lambda>x. (x - 5) * (x - 5)),
       problem_grad = (\<lambda>x. 2 * (x - 5)),
       problem_precon = (\<lambda>x u. u) \<rparr>"

definition fixed_step :: "real \<Rightarrow> (real, real, unit, nat) search" where
  "fixed_step t objective man x desc_dir cost df0 ls =
     ((t, man_retr man x (t *\<^sub>R desc_dir)), ls)"

text \<open>A line search that takes the step \<open>t\<close> where \<open>df0\<close> is \<open>df\<close>, and twice \<open>t\<close> elsewhere.\<close>

definition choosy_step :: "real \<Rightarrow> real \<Rightarrow> (real, real, unit, nat) search" where
  "choosy_step df t objective man x desc_dir cost df0 ls =
     (if df0 = df then ((t, man_retr man x (t *\<^sub>R desc_dir)), ls)
      else ((2 * t, man_retr man x ((2 * t) *\<^sub>R desc_dir)), ls))"

text \<open>
  Modelled from the spec: \<^verbatim>\<open>_check_stopping_criterion\<close> of the base class \<^verbatim>\<open>Solver\<close>, which
  is not in the source tree. Of the criteria the specification lists, these two
  instances keep the iteration count (both) and the count of cost evaluations (the
  second), in the order of the specification; the clock is not read.
\<close>

definition cg_stop_at :: "int \<Rightarrow> nat cg_check" where
  "cg_stop_at k wd gradnorm iter stepsize =
     (if iter \<ge> k then Some ''Terminated - max iterations reached'' else None, wd)"

definition pso_stop :: "nat pso_check" where
  "pso_stop wd maxiter maxcostevals iter costevals =
     (if iter \<ge> maxiter then Some ''Terminated - max iterations reached''
      else if costevals \<ge> maxcostevals then Some ''Terminated - max cost evals reached''
      else None, wd)"

definition bogus_solver :: "unit ConjugateGradient" where
  "bogus_solver =
     \<lparr> cg_beta_type = Other ''Bogus'', cg_orth_value = Infinity,
       cg_linesearch_proto = (), cg_linesearch = None, cg_logverbosity = 0 \<rparr>"

definition cg_start :: "(real, real, unit, nat) cg_state" where
  "cg_start =
     \<lparr> cg_x = 0, cg_cost = 25, cg_grad = - 10, cg_gradnorm = 10, cg_Pgrad = - 10,
       cg_gradPgrad = 100, cg_desc_dir = 10, cg_iter = 0, cg_stepsize = None,
       cg_ls = (), cg_world = 0 \<rparr>"

definition rnd_tenth :: "nat \<Rightarrow> real \<times> nat" where
  "rnd_tenth wd = (1 / 10, Suc wd)"

definition swarm_solver :: ParticleSwarm where
  "swarm_solver =
     \<lparr> pso_maxcostevals = Some 3, pso_maxiter = Some 5, pso_populationsize = Some 1,
       pso_nostalgia = 14 / 10, pso_social = 14 / 10, pso_logverbosity = 0 \<rparr>"

text \<open>
  The state of the one-particle swarm that starts at 0 on \<open>square_problem\<close>: before
  the loop, after the first pass, and when \<^verbatim>\<open>solve\<close> returns after two passes.
\<close>

definition swarm_start :: "(real, real, nat) pso_state" where
  "swarm_start =
     \<lparr> ps_maxcostevals = 3, ps_maxiter = 5, ps_populationsize = 1,
       ps_x = [0], ps_y = [0], ps_xprev = [0], ps_v = [1], ps_costs = [25],
       ps_fy = [25], ps_costevals = 1, ps_fbest = 25, ps_xbest = 0,
       ps_iter = 0, ps_world = 1, ps_stdout = [], ps_objective_calls = 1 \<rparr>"

definition swarm_first :: "(real, real, nat) pso_state" where
  "swarm_first =
     \<lparr> ps_maxcostevals = 3, ps_maxiter = 5, ps_populationsize = 1,
       ps_x = [4 / 5], ps_y = [0], ps_xprev = [0], ps_v = [4 / 5], ps_costs = [25],
       ps_fy = [25], ps_costevals = 2, ps_fbest = 25, ps_xbest = 0,
       ps_iter = 1, ps_world = 3, ps_stdout = [], ps_objective_calls = 2 \<rparr>"

definition swarm_end :: "(real, real, nat) pso_state" where
  "swarm_end =
     \<lparr> ps_maxcostevals = 3, ps_maxiter = 5, ps_populationsize = 1,
       ps_x = [142 / 125], ps_y = [4 / 5], ps_xprev = [4 / 5], ps_v = [42 / 125],
       ps_costs = [441 / 25], ps_fy = [441 / 25], ps_costevals = 3,
       ps_fbest = 441 / 25, ps_xbest = 4 / 5, ps_iter = 3, ps_world = 5,
       ps_stdout = [], ps_objective_calls = 3 \<rparr>"

section \<open>Conjugate gradient: the search direction\<close>

text \<open>
  C3. With the Hestenes-Stiefel rule, \<^verbatim>\<open>beta\<close> is 1 when the denominator
  \<^verbatim>\<open>inner(newx, diff, desc_dir)\<close> (with the transported direction) is zero, and
  \<^verbatim>\<open>max(0, inner(newx, Pnewgrad, diff) / inner(newx, diff, desc_dir))\<close> otherwise; no
  error is raised. The first conjunct is lines 192-201, the second is the whole
  computation of the direction in an iteration that does not restart.
\<close>

theorem hestenes_stiefel_beta:
  fixes man :: "('p, 'v::real_vector, 'w) manifold"
    and x newx :: 'p and grad newgrad Pgrad Pnewgrad desc_dir :: 'v
    and gradPgrad newgradPnewgrad gradnorm :: real and orth_value :: threshold
  defines "oldgrad \<equiv> man_transp man x newx grad"
  defines "diff \<equiv> newgrad - oldgrad"
  defines "d \<equiv> man_transp man x newx desc_dir"
  defines "beta \<equiv> (if man_inner man newx diff d = 0 then 1
                   else max 0 (man_inner man newx Pnewgrad diff / man_inner man newx diff d))"
  shows "cg_beta man HestenesStiefel x newx newgrad oldgrad Pgrad Pnewgrad
           gradPgrad newgradPnewgrad gradnorm d = Inr beta
         \<and> (\<forall>orth_grads.
              py_div (man_inner man newx oldgrad Pnewgrad) newgradPnewgrad = Inr orth_grads
              \<and> \<not> reaches \<bar>orth_grads\<bar> orth_value \<longrightarrow>
              cg_direction man HestenesStiefel orth_value x newx grad newgrad Pgrad Pnewgrad
                gradPgrad newgradPnewgrad gradnorm desc_dir
                = Inr (beta, - Pnewgrad + beta *\<^sub>R d))"
proof -
  have b: "cg_beta man HestenesStiefel x newx newgrad oldgrad Pgrad Pnewgrad
           gradPgrad newgradPnewgrad gradnorm d = Inr beta"
    by (simp add: cg_beta_def py_div_def beta_def diff_def Let_def)
  show ?thesis
    using b by (auto simp: cg_direction_def Let_def oldgrad_def d_def)
qed

theorem hestenes_stiefel_beta_witness:
  "cg_direction real_line HestenesStiefel Infinity 0 (- (1 / 4)) 1 1 1 1 1 1 1 (- 1) = Inr (1, - 2)
   \<and> cg_direction real_line HestenesStiefel Infinity 0 (5 / 2) (- 10) (- 5) (- 10) (- 5) 100 25 10 10
       = Inr (0, 5)"
proof -
  have 1: "cg_direction real_line HestenesStiefel Infinity 0 (- (1 / 4)) 1 1 1 1 1 1 1 (- 1)
             = Inr (1, - 2)"
    using hestenes_stiefel_beta
      [where man = real_line and x = 0 and newx = "- (1 / 4)" and grad = 1 and newgrad = 1
        and Pgrad = 1 and Pnewgrad = 1 and desc_dir = "- 1" and gradPgrad = 1
        and newgradPnewgrad = 1 and gradnorm = 1 and orth_value = Infinity]
    by (simp add: real_line_def py_div_def)
  have 2: "cg_direction real_line HestenesStiefel Infinity 0 (5 / 2) (- 10) (- 5) (- 10) (- 5)
             100 25 10 10 = Inr (0, 5)"
    using hestenes_stiefel_beta
      [where man = real_line and x = 0 and newx = "5 / 2" and grad = "- 10"
        and newgrad = "- 5" and Pgrad = "- 10" and Pnewgrad = "- 5" and desc_dir = 10
        and gradPgrad = 100 and newgradPnewgrad = 25 and gradnorm = 10
        and orth_value = Infinity]
    by (simp add: real_line_def py_div_def)
  show ?thesis using 1 2 by simp
qed

text \<open>
  C4. When the Powell test \<^verbatim>\<open>abs(orth_grads) >= orth_value\<close> holds, \<^verbatim>\<open>beta\<close> is 0 and the
  next direction is \<^verbatim>\<open>-Pnewgrad\<close>, for every \<^verbatim>\<open>beta_type\<close>: the iteration succeeds and
  stores that direction. The quotient exists when \<^verbatim>\<open>newgradPnewgrad\<close> is not zero.
\<close>

theorem powell_restart:
  fixes problem :: "('p, 'v::real_vector, 'w) problem"
    and s :: "('p, 'v, 'ls, 'w) cg_state"
    and self :: "'ls ConjugateGradient"
    and search :: "('p, 'v, 'ls, 'w) search"
    and newx :: 'p and d :: 'v
  defines "man \<equiv> problem_manifold problem"
  defines "newgrad \<equiv> problem_grad problem newx"
  defines "Pnewgrad \<equiv> problem_precon problem newx newgrad"
  defines "newgradPnewgrad \<equiv> man_inner man newx newgrad Pnewgrad"
  assumes guard: "cg_descent_guard man (cg_x s) (cg_grad s) (cg_Pgrad s) (cg_gradPgrad s)
                    (cg_desc_dir s) = (d, df0)"
      and search: "search (problem_cost problem) man (cg_x s) d (cg_cost s) df0 (cg_ls s)
                    = ((stepsize, newx), ls)"
      and orth: "py_div (man_inner man newx (man_transp man (cg_x s) newx (cg_grad s)) Pnewgrad)
                   newgradPnewgrad = Inr orth_grads"
      and powell: "reaches \<bar>orth_grads\<bar> (cg_orth_value self)"
  shows "cg_direction man (cg_beta_type self) (cg_orth_value self) (cg_x s) newx (cg_grad s)
           newgrad (cg_Pgrad s) Pnewgrad (cg_gradPgrad s) newgradPnewgrad (cg_gradnorm s) d
           = Inr (0, - Pnewgrad)
         \<and> (\<exists>s'. cg_iteration search problem self s = Inr s' \<and> cg_x s' = newx
                \<and> cg_Pgrad s' = Pnewgrad \<and> cg_desc_dir s' = - Pnewgrad)"
proof -
  have dir: "cg_direction man (cg_beta_type self) (cg_orth_value self) (cg_x s) newx (cg_grad s)
           newgrad (cg_Pgrad s) Pnewgrad (cg_gradPgrad s) newgradPnewgrad (cg_gradnorm s) d
           = Inr (0, - Pnewgrad)"
    using orth powell by (simp add: cg_direction_def Let_def)
  have "\<exists>s'. cg_iteration search problem self s = Inr s' \<and> cg_x s' = newx
                \<and> cg_Pgrad s' = Pnewgrad \<and> cg_desc_dir s' = - Pnewgrad"
    using guard search dir
    unfolding cg_iteration_def man_def newgrad_def Pnewgrad_def newgradPnewgrad_def
    by (simp add: Let_def)
  with dir show ?thesis by blast
qed

theorem powell_restart_witness:
  "cg_direction real_line (Other ''Bogus'') (Finite 0) 0 (5 / 2) (- 10) (- 5) (- 10) (- 5)
     100 25 10 10 = Inr (0, 5)
   \<and> map_sum id cg_desc_dir
       (cg_iteration (fixed_step (1 / 4)) square_problem
          (bogus_solver\<lparr> cg_orth_value := Finite 0 \<rparr>) cg_start) = Inr 5"
proof -
  have "cg_direction real_line (Other ''Bogus'') (Finite 0) 0 (5 / 2) (- 10) (- 5) (- 10) (- 5)
          100 25 10 10 = Inr (0, 5)
        \<and> (\<exists>s'. cg_iteration (fixed_step (1 / 4)) square_problem
                  (bogus_solver\<lparr> cg_orth_value := Finite 0 \<rparr>) cg_start = Inr s'
               \<and> cg_x s' = 5 / 2 \<and> cg_Pgrad s' = - 5 \<and> cg_desc_dir s' = 5)"
    using powell_restart
      [where problem = square_problem and s = cg_start
        and self = "bogus_solver\<lparr> cg_orth_value := Finite 0 \<rparr>"
        and search = "fixed_step (1 / 4)" and d = 10 and ?df0.0 = "- 100"
        and stepsize = "1 / 4" and newx = "5 / 2" and ls = "()" and orth_grads = 2]
    by (simp add: square_problem_def real_line_def cg_start_def bogus_solver_def
        fixed_step_def cg_descent_guard_def py_div_def)
  then show ?thesis by auto
qed

text \<open>
  C5. Before the line search, \<^verbatim>\<open>df0 = inner(x, grad, desc_dir)\<close>; when \<^verbatim>\<open>df0 >= 0\<close> the
  direction becomes \<^verbatim>\<open>-Pgrad\<close> and \<^verbatim>\<open>df0\<close> becomes \<^verbatim>\<open>-gradPgrad\<close>, and otherwise both are
  kept. The line search is called with these values: whatever it returns at these
  arguments is the step size, the next point and the next state of the line search of
  the iteration, the rest of the iteration (cost, gradient, Powell test, beta rule) is
  evaluated at that point with the direction so chosen, and the iteration fails only
  where the choice of the next direction fails. The iteration depends on the search
  only through its result at these arguments, and the old direction is forgotten: two
  states that differ in an ascent direction only give the same iteration.
\<close>

theorem descent_direction_reset:
  fixes problem :: "('p, 'v::real_vector, 'w) problem"
    and s s' :: "('p, 'v, 'ls, 'w) cg_state"
    and self :: "'ls ConjugateGradient"
    and search search' :: "('p, 'v, 'ls, 'w) search"
    and d' :: 'v
    and stepsize :: real and newx :: 'p and ls :: 'ls
  defines "man \<equiv> problem_manifold problem"
  defines "df0 \<equiv> man_inner man (cg_x s) (cg_grad s) (cg_desc_dir s)"
  defines "d \<equiv> (if df0 \<ge> 0 then - cg_Pgrad s else cg_desc_dir s)"
  defines "df \<equiv> (if df0 \<ge> 0 then - cg_gradPgrad s else df0)"
  defines "newgrad \<equiv> problem_grad problem newx"
  defines "Pnewgrad \<equiv> problem_precon problem newx newgrad"
  shows "cg_descent_guard man (cg_x s) (cg_grad s) (cg_Pgrad s) (cg_gradPgrad s) (cg_desc_dir s)
           = (if df0 \<ge> 0 then (- cg_Pgrad s, - cg_gradPgrad s) else (cg_desc_dir s, df0))
         \<and> (df0 \<ge> 0 \<and>
              search (problem_cost problem) man (cg_x s) (- cg_Pgrad s) (cg_cost s)
                (- cg_gradPgrad s) (cg_ls s)
              = search' (problem_cost problem) man (cg_x s) (- cg_Pgrad s) (cg_cost s)
                  (- cg_gradPgrad s) (cg_ls s) \<longrightarrow>
              cg_iteration search problem self s = cg_iteration search' problem self s)
         \<and> (df0 < 0 \<and>
              search (problem_cost problem) man (cg_x s) (cg_desc_dir s) (cg_cost s) df0 (cg_ls s)
              = search' (problem_cost problem) man (cg_x s) (cg_desc_dir s) (cg_cost s) df0
                  (cg_ls s) \<longrightarrow>
              cg_iteration search problem self s = cg_iteration search' problem self s)
         \<and> (df0 \<ge> 0 \<and> man_inner man (cg_x s) (cg_grad s) d' \<ge> 0 \<longrightarrow>
              cg_iteration search problem self (s\<lparr> cg_desc_dir := d' \<rparr>)
              = cg_iteration search problem self s)
         \<and> (search (problem_cost problem) man (cg_x s) d (cg_cost s) df (cg_ls s)
              = ((stepsize, newx), ls) \<longrightarrow>
              cg_iteration search problem self s
              = (case cg_direction man (cg_beta_type self) (cg_orth_value self) (cg_x s) newx
                        (cg_grad s) newgrad (cg_Pgrad s) Pnewgrad (cg_gradPgrad s)
                        (man_inner man newx newgrad Pnewgrad) (cg_gradnorm s) d of
                   Inl e \<Rightarrow> Inl e
                 | Inr (beta, desc_dir) \<Rightarrow>
                     Inr (s\<lparr> cg_x := newx, cg_cost := problem_cost problem newx,
                             cg_grad := newgrad, cg_Pgrad := Pnewgrad,
                             cg_gradnorm := man_norm man newx newgrad,
                             cg_gradPgrad := man_inner man newx newgrad Pnewgrad,
                             cg_desc_dir := desc_dir, cg_iter := cg_iter s + 1,
                             cg_stepsize := Some stepsize, cg_ls := ls \<rparr>)))
         \<and> (search (problem_cost problem) man (cg_x s) d (cg_cost s) df (cg_ls s)
              = ((stepsize, newx), ls) \<and>
            cg_iteration search problem self s = Inr s' \<longrightarrow>
              cg_x s' = newx \<and> cg_stepsize s' = Some stepsize \<and> cg_ls s' = ls
              \<and> cg_cost s' = problem_cost problem newx \<and> cg_grad s' = newgrad
              \<and> cg_iter s' = cg_iter s + 1)"
proof -
  have 1: "cg_descent_guard man (cg_x s) (cg_grad s) (cg_Pgrad s) (cg_gradPgrad s) (cg_desc_dir s)
           = (if df0 \<ge> 0 then (- cg_Pgrad s, - cg_gradPgrad s) else (cg_desc_dir s, df0))"
    by (simp add: cg_descent_guard_def df0_def Let_def)
  have 2: "cg_iteration search problem self s = cg_iteration search' problem self s"
    if "df0 \<ge> 0" and "search (problem_cost problem) man (cg_x s) (- cg_Pgrad s) (cg_cost s)
                (- cg_gradPgrad s) (cg_ls s)
              = search' (problem_cost problem) man (cg_x s) (- cg_Pgrad s) (cg_cost s)
                  (- cg_gradPgrad s) (cg_ls s)"
    using that unfolding cg_iteration_def man_def df0_def
    by (simp add: cg_descent_guard_def Let_def)
  have 3: "cg_iteration search problem self s = cg_iteration search' problem self s"
    if "df0 < 0" and "search (problem_cost problem) man (cg_x s) (cg_desc_dir s) (cg_cost s) df0
                (cg_ls s)
              = search' (problem_cost problem) man (cg_x s) (cg_desc_dir s) (cg_cost s) df0
                  (cg_ls s)"
    using that unfolding cg_iteration_def man_def df0_def
    by (simp add: cg_descent_guard_def Let_def)
  have 4: "cg_iteration search problem self (s\<lparr> cg_desc_dir := d' \<rparr>)
              = cg_iteration search problem self s"
    if "df0 \<ge> 0" and "man_inner man (cg_x s) (cg_grad s) d' \<ge> 0"
    using that unfolding cg_iteration_def man_def df0_def
    by (simp add: cg_descent_guard_def Let_def split: prod.splits sum.splits)
  have 5: "cg_iteration search problem self s
              = (case cg_direction man (cg_beta_type self) (cg_orth_value self) (cg_x s) newx
                        (cg_grad s) newgrad (cg_Pgrad s) Pnewgrad (cg_gradPgrad s)
                        (man_inner man newx newgrad Pnewgrad) (cg_gradnorm s) d of
                   Inl e \<Rightarrow> Inl e
                 | Inr (beta, desc_dir) \<Rightarrow>
                     Inr (s\<lparr> cg_x := newx, cg_cost := problem_cost problem newx,
                             cg_grad := newgrad, cg_Pgrad := Pnewgrad,
                             cg_gradnorm := man_norm man newx newgrad,
                             cg_gradPgrad := man_inner man newx newgrad Pnewgrad,
                             cg_desc_dir := desc_dir, cg_iter := cg_iter s + 1,
                             cg_stepsize := Some stepsize, cg_ls := ls \<rparr>))"
    if "search (problem_cost problem) man (cg_x s) d (cg_cost s) df (cg_ls s)
              = ((stepsize, newx), ls)"
  proof (cases "df0 \<ge> 0")
    case True
    with that show ?thesis
      unfolding cg_iteration_def man_def df0_def d_def df_def newgrad_def Pnewgrad_def
      by (simp add: cg_descent_guard_def Let_def)
  next
    case False
    with that show ?thesis
      unfolding cg_iteration_def man_def df0_def d_def df_def newgrad_def Pnewgrad_def
      by (simp add: cg_descent_guard_def Let_def)
  qed
  have 6: "cg_x s' = newx \<and> cg_stepsize s' = Some stepsize \<and> cg_ls s' = ls
              \<and> cg_cost s' = problem_cost problem newx \<and> cg_grad s' = newgrad
              \<and> cg_iter s' = cg_iter s + 1"
    if a: "search (problem_cost problem) man (cg_x s) d (cg_cost s) df (cg_ls s)
              = ((stepsize, newx), ls)"
      and b: "cg_iteration search problem self s = Inr s'"
    using b unfolding 5 [OF a] by (auto split: sum.splits prod.splits)
  show ?thesis using 1 2 3 4 5 6 by blast
qed

theorem descent_direction_reset_witness:
  "cg_descent_guard real_line 0 (- 10) (- 10) 100 (- 10) = (10, - 100)
   \<and> cg_iteration (fixed_step (1 / 4)) square_problem bogus_solver
       (cg_start\<lparr> cg_desc_dir := - 10 \<rparr>)
     = cg_iteration (choosy_step (- 100) (1 / 4)) square_problem bogus_solver
         (cg_start\<lparr> cg_desc_dir := - 10 \<rparr>)
   \<and> cg_iteration (fixed_step (1 / 4)) square_problem bogus_solver cg_start
     = cg_iteration (choosy_step (- 100) (1 / 4)) square_problem bogus_solver cg_start
   \<and> cg_iteration (fixed_step (1 / 4)) square_problem bogus_solver
       (cg_start\<lparr> cg_desc_dir := - 10 \<rparr>)
     = cg_iteration (fixed_step (1 / 4)) square_problem bogus_solver
         (cg_start\<lparr> cg_desc_dir := - 20 \<rparr>)
   \<and> cg_iteration (fixed_step (1 / 4)) square_problem
       (bogus_solver\<lparr> cg_orth_value := Finite 0 \<rparr>) (cg_start\<lparr> cg_desc_dir := - 10 \<rparr>)
     = Inr \<lparr> cg_x = 5 / 2, cg_cost = 25 / 4, cg_grad = - 5, cg_gradnorm = 5, cg_Pgrad = - 5,
             cg_gradPgrad = 25, cg_desc_dir = 5, cg_iter = 1, cg_stepsize = Some (1 / 4),
             cg_ls = (), cg_world = 0 \<rparr>"
proof -
  note ascent = descent_direction_reset
    [where problem = square_problem and s = "cg_start\<lparr> cg_desc_dir := - 10 \<rparr>"
      and self = bogus_solver and search = "fixed_step (1 / 4)"
      and search' = "choosy_step (- 100) (1 / 4)" and d' = "- 20"]
  note descent = descent_direction_reset
    [where problem = square_problem and s = cg_start
      and self = bogus_solver and search = "fixed_step (1 / 4)"
      and search' = "choosy_step (- 100) (1 / 4)" and d' = "- 20"]
  note pinned = descent_direction_reset
    [where problem = square_problem and s = "cg_start\<lparr> cg_desc_dir := - 10 \<rparr>"
      and self = "bogus_solver\<lparr> cg_orth_value := Finite 0 \<rparr>"
      and search = "fixed_step (1 / 4)" and stepsize = "1 / 4" and newx = "5 / 2"
      and ls = "()",
      THEN conjunct2, THEN conjunct2, THEN conjunct2, THEN conjunct2, THEN conjunct1]
  have a: "cg_descent_guard real_line 0 (- 10) (- 10) 100 (- 10) = (10, - 100)
   \<and> cg_iteration (fixed_step (1 / 4)) square_problem bogus_solver
       (cg_start\<lparr> cg_desc_dir := - 10 \<rparr>)
     = cg_iteration (choosy_step (- 100) (1 / 4)) square_problem bogus_solver
         (cg_start\<lparr> cg_desc_dir := - 10 \<rparr>)
   \<and> cg_iteration (fixed_step (1 / 4)) square_problem bogus_solver
       (cg_start\<lparr> cg_desc_dir := - 10 \<rparr>)
     = cg_iteration (fixed_step (1 / 4)) square_problem bogus_solver
         (cg_start\<lparr> cg_desc_dir := - 20 \<rparr>)"
    using ascent
    by (simp add: square_problem_def real_line_def cg_start_def fixed_step_def
        choosy_step_def)
  have d: "cg_iteration (fixed_step (1 / 4)) square_problem bogus_solver cg_start
     = cg_iteration (choosy_step (- 100) (1 / 4)) square_problem bogus_solver cg_start"
    using descent
    by (simp add: square_problem_def real_line_def cg_start_def fixed_step_def
        choosy_step_def)
  have p: "cg_iteration (fixed_step (1 / 4)) square_problem
       (bogus_solver\<lparr> cg_orth_value := Finite 0 \<rparr>) (cg_start\<lparr> cg_desc_dir := - 10 \<rparr>)
     = Inr \<lparr> cg_x = 5 / 2, cg_cost = 25 / 4, cg_grad = - 5, cg_gradnorm = 5, cg_Pgrad = - 5,
             cg_gradPgrad = 25, cg_desc_dir = 5, cg_iter = 1, cg_stepsize = Some (1 / 4),
             cg_ls = (), cg_world = 0 \<rparr>"
    using pinned
    by (simp add: square_problem_def real_line_def cg_start_def fixed_step_def
        bogus_solver_def cg_direction_def py_div_def)
  from a d p show ?thesis by blast
qed

section \<open>Conjugate gradient: an unknown beta rule\<close>

lemma unknown_beta_type_message:
  "unknown_beta_type name =
     ValueError (''Unknown beta_type '' @ name @
       ''. Should be one of BetaTypes.FletcherReeves, BetaTypes.PolakRibiere, BetaTypes.HestenesStiefel, BetaTypes.HagerZhang.'')"
  by (simp add: unknown_beta_type_def BetaTypes_fields_def)

text \<open>
  C2, as the code has it. The constructor stores any \<^verbatim>\<open>beta_type\<close> and raises nothing.
  With a \<^verbatim>\<open>beta_type\<close> that is none of the four rules, the \<^verbatim>\<open>ValueError\<close> that lists the
  four names is raised inside the loop of \<^verbatim>\<open>solve\<close>: in a pass whose stopping test gives
  no reason and whose Powell test does not hold, after the line search has run.
\<close>

theorem unknown_beta_type_raised_in_loop:
  fixes problem :: "('p, 'v::real_vector, 'w) problem"
    and s :: "('p, 'v, 'ls, 'w) cg_state"
    and self :: "'ls ConjugateGradient"
    and search :: "('p, 'v, 'ls, 'w) search"
    and check :: "'w cg_check"
    and newx :: 'p and d :: 'v
  defines "man \<equiv> problem_manifold problem"
  defines "newgrad \<equiv> problem_grad problem newx"
  defines "Pnewgrad \<equiv> problem_precon problem newx newgrad"
  defines "newgradPnewgrad \<equiv> man_inner man newx newgrad Pnewgrad"
  assumes unknown: "cg_beta_type self = Other name"
      and continue: "check (cg_world s) (cg_gradnorm s) (cg_iter s + 1) (cg_stepsize s)
                       = (stop_reason, w)"
                    "\<not> truthy stop_reason"
      and guard: "cg_descent_guard man (cg_x s) (cg_grad s) (cg_Pgrad s) (cg_gradPgrad s)
                    (cg_desc_dir s) = (d, df0)"
      and search: "search (problem_cost problem) man (cg_x s) d (cg_cost s) df0 (cg_ls s)
                    = ((stepsize, newx), ls)"
      and orth: "py_div (man_inner man newx (man_transp man (cg_x s) newx (cg_grad s)) Pnewgrad)
                   newgradPnewgrad = Inr orth_grads"
      and no_restart: "\<not> reaches \<bar>orth_grads\<bar> (cg_orth_value self)"
  shows "ConjugateGradient_init LineSearchAdaptive (Other name) orth_value linesearch logverbosity
           = Inr \<lparr> cg_beta_type = Other name, cg_orth_value = orth_value,
                   cg_linesearch_proto =
                     (case linesearch of None \<Rightarrow> LineSearchAdaptive | Some l \<Rightarrow> l),
                   cg_linesearch = None, cg_logverbosity = logverbosity \<rparr>
         \<and> cg_iteration search problem self (s\<lparr> cg_world := w \<rparr>) =
             Inl (ValueError (''Unknown beta_type '' @ name @
               ''. Should be one of BetaTypes.FletcherReeves, BetaTypes.PolakRibiere, BetaTypes.HestenesStiefel, BetaTypes.HagerZhang.''))
         \<and> cg_loop (Suc n) search check problem self s =
             Some (Inl (ValueError (''Unknown beta_type '' @ name @
               ''. Should be one of BetaTypes.FletcherReeves, BetaTypes.PolakRibiere, BetaTypes.HestenesStiefel, BetaTypes.HagerZhang.'')))"
proof -
  have dir: "cg_direction man (cg_beta_type self) (cg_orth_value self) (cg_x s) newx (cg_grad s)
           newgrad (cg_Pgrad s) Pnewgrad (cg_gradPgrad s) newgradPnewgrad (cg_gradnorm s) d
           = Inl (unknown_beta_type name)"
    using orth no_restart unknown by (simp add: cg_direction_def cg_beta_def Let_def)
  have it: "cg_iteration search problem self (s\<lparr> cg_world := w \<rparr>)
              = Inl (unknown_beta_type name)"
    using guard search dir
    unfolding cg_iteration_def man_def newgrad_def Pnewgrad_def newgradPnewgrad_def
    by (simp add: Let_def)
  have lp: "cg_loop (Suc n) search check problem self s = Some (Inl (unknown_beta_type name))"
    using continue it by simp
  show ?thesis
    using it lp unfolding unknown_beta_type_message
    by (simp add: ConjugateGradient_init_def)
qed

theorem unknown_beta_type_raised_in_loop_witness:
  "cg_loop (Suc 0) (fixed_step (1 / 4)) (cg_stop_at 2) square_problem bogus_solver cg_start =
     Some (Inl (ValueError
       ''Unknown beta_type Bogus. Should be one of BetaTypes.FletcherReeves, BetaTypes.PolakRibiere, BetaTypes.HestenesStiefel, BetaTypes.HagerZhang.''))"
proof -
  have hyps:
    "cg_beta_type bogus_solver = Other ''Bogus''"
    "cg_stop_at 2 (cg_world cg_start) (cg_gradnorm cg_start) (cg_iter cg_start + 1)
       (cg_stepsize cg_start) = (None, 0)"
    "\<not> truthy None"
    "cg_descent_guard (problem_manifold square_problem) (cg_x cg_start) (cg_grad cg_start)
       (cg_Pgrad cg_start) (cg_gradPgrad cg_start) (cg_desc_dir cg_start) = (10, - 100)"
    "fixed_step (1 / 4) (problem_cost square_problem) (problem_manifold square_problem)
       (cg_x cg_start) 10 (cg_cost cg_start) (- 100) (cg_ls cg_start) = ((1 / 4, 5 / 2), ())"
    "py_div (man_inner (problem_manifold square_problem) (5 / 2)
               (man_transp (problem_manifold square_problem) (cg_x cg_start) (5 / 2)
                  (cg_grad cg_start))
               (problem_precon square_problem (5 / 2) (problem_grad square_problem (5 / 2))))
       (man_inner (problem_manifold square_problem) (5 / 2)
          (problem_grad square_problem (5 / 2))
          (problem_precon square_problem (5 / 2) (problem_grad square_problem (5 / 2))))
       = Inr 2"
    "\<not> reaches \<bar>2\<bar> (cg_orth_value bogus_solver)"
    by (simp_all add: square_problem_def real_line_def cg_start_def bogus_solver_def
        fixed_step_def cg_descent_guard_def py_div_def cg_stop_at_def)
  note at_start = unknown_beta_type_raised_in_loop
    [where problem = square_problem and s = cg_start and self = bogus_solver
      and search = "fixed_step (1 / 4)" and check = "cg_stop_at 2" and name = "''Bogus''"
      and stop_reason = None and w = 0 and d = 10 and ?df0.0 = "- 100"
      and stepsize = "1 / 4" and newx = "5 / 2" and ls = "()" and orth_grads = 2 and n = 0
      and LineSearchAdaptive = "()" and orth_value = Infinity and linesearch = None
      and logverbosity = 0]
  from at_start [OF hyps] show ?thesis by simp
qed

text \<open>
  The claim C2 as the specification words it fails: constructing the solver with the
  unknown rule \<^verbatim>\<open>"Bogus"\<close> returns a solver; \<^verbatim>\<open>solve\<close> then enters its loop, runs the line
  search and raises from the first pass; and with a Powell threshold of 0, which
  restarts in every pass, \<^verbatim>\<open>solve\<close> makes two full passes and returns a point without any
  error.
\<close>

theorem unknown_beta_type_not_rejected_at_construction:
  "ConjugateGradient_init () (Other ''Bogus'') Infinity None 0 = Inr bogus_solver
   \<and> ConjugateGradient_solve (Suc 0) (fixed_step (1 / 4)) (cg_stop_at 3) bogus_solver
       square_problem (Some 0) False 0
     = Some (Inl (ValueError
         ''Unknown beta_type Bogus. Should be one of BetaTypes.FletcherReeves, BetaTypes.PolakRibiere, BetaTypes.HestenesStiefel, BetaTypes.HagerZhang.''))
   \<and> map_option (map_sum id fst)
       (ConjugateGradient_solve (Suc (Suc (Suc 0))) (fixed_step (1 / 4)) (cg_stop_at 3)
          (bogus_solver\<lparr> cg_orth_value := Finite 0 \<rparr>) square_problem (Some 0) False 0)
     = Some (Inr (15 / 4))"
  by (simp add: ConjugateGradient_init_def ConjugateGradient_solve_def bogus_solver_def
      square_problem_def real_line_def fixed_step_def cg_stop_at_def cg_iteration_def
      cg_descent_guard_def cg_direction_def cg_beta_def py_div_def unknown_beta_type_def
      BetaTypes_fields_def Let_def)

section \<open>Particle swarm: the steps of one pass\<close>

lemma fold_invariant:
  assumes "P s" and "\<And>i t. i \<in> set js \<Longrightarrow> P t \<Longrightarrow> P (f i t)"
  shows "P (fold f js s)"
  using assms by (induction js arbitrary: s) auto

lemma takeWhile_stops: "a \<in> set xs \<Longrightarrow> length (takeWhile (\<lambda>b. b \<noteq> a) xs) < length xs"
  by (induction xs) auto

lemma argmin_least:
  assumes "argmin cs = Inr i"
  shows "i < length cs \<and> cs ! i = Min (set cs)"
proof (cases cs)
  case Nil
  with assms show ?thesis by (simp add: argmin_def)
next
  case (Cons c cs')
  let ?m = "Min (set cs)"
  have m: "fold min cs' c = ?m"
    unfolding Cons by (rule Min.set_eq_fold [symmetric])
  from assms have "length (takeWhile (\<lambda>a. a \<noteq> fold min cs' c) cs) = i"
    unfolding argmin_def by (simp only: Cons list.case sum.inject)
  then have i: "i = length (takeWhile (\<lambda>a. a \<noteq> ?m) cs)"
    unfolding m by simp
  have "?m \<in> set cs"
    using Cons by (intro Min_in) auto
  then have lt: "length (takeWhile (\<lambda>a. a \<noteq> ?m) cs) < length cs"
    by (rule takeWhile_stops)
  from nth_length_takeWhile [OF lt] have "cs ! i = ?m"
    using i by simp
  with lt i show ?thesis by simp
qed


lemma length_rand_points: "rand_points rand n wd = (ps, wd') \<Longrightarrow> length ps = n"
  by (induction n arbitrary: wd ps wd') (auto simp: Let_def split: prod.splits)

lemma length_randvecs: "randvecs randvec xs wd = (us, wd') \<Longrightarrow> length us = length xs"
  by (induction xs arbitrary: wd us wd') (auto simp: Let_def split: prod.splits)

subsection \<open>The velocity step\<close>

lemma velocity_step_shape:
  "\<exists>r1 r2 wd.
     pso_velocity_step rnd_rand man self w i s =
       s\<lparr> ps_v := (ps_v s)[i :=
              w *\<^sub>R man_transp man (ps_xprev s ! i) (ps_x s ! i) (ps_v s ! i)
              + (r1 * pso_nostalgia self) *\<^sub>R man_log man (ps_x s ! i) (ps_y s ! i)
              + (r2 * pso_social self) *\<^sub>R man_log man (ps_x s ! i) (ps_xbest s)],
          ps_world := wd \<rparr>"
  by (auto simp: pso_velocity_step_def Let_def split: prod.splits)

lemma velocity_loop_shape:
  assumes "n \<le> length (ps_v s)"
  shows "\<exists>vs wd.
     fold (pso_velocity_step rnd_rand man self w) [0..<n] s = s\<lparr> ps_v := vs, ps_world := wd \<rparr>
     \<and> length vs = length (ps_v s)
     \<and> (\<forall>j. n \<le> j \<longrightarrow> vs ! j = ps_v s ! j)
     \<and> (\<forall>j<n. \<exists>r1 r2. vs ! j =
            w *\<^sub>R man_transp man (ps_xprev s ! j) (ps_x s ! j) (ps_v s ! j)
            + (r1 * pso_nostalgia self) *\<^sub>R man_log man (ps_x s ! j) (ps_y s ! j)
            + (r2 * pso_social self) *\<^sub>R man_log man (ps_x s ! j) (ps_xbest s))"
  using assms
proof (induction n)
  case 0
  have "s = s\<lparr> ps_v := ps_v s, ps_world := ps_world s \<rparr>" by simp
  then show ?case by (metis fold_simps(1) less_nat_zero_code upt_0)
next
  case (Suc n)
  then obtain vs wd where
    f: "fold (pso_velocity_step rnd_rand man self w) [0..<n] s = s\<lparr> ps_v := vs, ps_world := wd \<rparr>"
    and l: "length vs = length (ps_v s)"
    and hi: "\<forall>j. n \<le> j \<longrightarrow> vs ! j = ps_v s ! j"
    and lo: "\<forall>j<n. \<exists>r1 r2. vs ! j =
            w *\<^sub>R man_transp man (ps_xprev s ! j) (ps_x s ! j) (ps_v s ! j)
            + (r1 * pso_nostalgia self) *\<^sub>R man_log man (ps_x s ! j) (ps_y s ! j)
            + (r2 * pso_social self) *\<^sub>R man_log man (ps_x s ! j) (ps_xbest s)"
    by auto
  let ?t = "s\<lparr> ps_v := vs, ps_world := wd \<rparr>"
  obtain r1 r2 wd' where
    st: "pso_velocity_step rnd_rand man self w n ?t =
       ?t\<lparr> ps_v := (ps_v ?t)[n :=
              w *\<^sub>R man_transp man (ps_xprev ?t ! n) (ps_x ?t ! n) (ps_v ?t ! n)
              + (r1 * pso_nostalgia self) *\<^sub>R man_log man (ps_x ?t ! n) (ps_y ?t ! n)
              + (r2 * pso_social self) *\<^sub>R man_log man (ps_x ?t ! n) (ps_xbest ?t)],
          ps_world := wd' \<rparr>"
    using velocity_step_shape [of rnd_rand man self w n ?t] by blast
  let ?u = "w *\<^sub>R man_transp man (ps_xprev s ! n) (ps_x s ! n) (ps_v s ! n)
              + (r1 * pso_nostalgia self) *\<^sub>R man_log man (ps_x s ! n) (ps_y s ! n)
              + (r2 * pso_social self) *\<^sub>R man_log man (ps_x s ! n) (ps_xbest s)"
  have vn: "vs ! n = ps_v s ! n" using hi by simp
  have e: "fold (pso_velocity_step rnd_rand man self w) [0..<Suc n] s
             = s\<lparr> ps_v := vs[n := ?u], ps_world := wd' \<rparr>"
    using f st vn by simp
  have n: "n < length vs" using Suc.prems l by simp
  have 1: "length (vs[n := ?u]) = length (ps_v s)" using l by simp
  have 2: "\<forall>j. Suc n \<le> j \<longrightarrow> vs[n := ?u] ! j = ps_v s ! j"
    using hi by simp
  have 3: "\<forall>j<Suc n. \<exists>r1 r2. vs[n := ?u] ! j =
            w *\<^sub>R man_transp man (ps_xprev s ! j) (ps_x s ! j) (ps_v s ! j)
            + (r1 * pso_nostalgia self) *\<^sub>R man_log man (ps_x s ! j) (ps_y s ! j)
            + (r2 * pso_social self) *\<^sub>R man_log man (ps_x s ! j) (ps_xbest s)"
  proof (intro allI impI)
    fix j assume "j < Suc n"
    then consider "j < n" | "j = n" by linarith
    then show "\<exists>r1 r2. vs[n := ?u] ! j =
            w *\<^sub>R man_transp man (ps_xprev s ! j) (ps_x s ! j) (ps_v s ! j)
            + (r1 * pso_nostalgia self) *\<^sub>R man_log man (ps_x s ! j) (ps_y s ! j)
            + (r2 * pso_social self) *\<^sub>R man_log man (ps_x s ! j) (ps_xbest s)"
    proof cases
      case 1
      then show ?thesis using lo by simp
    next
      case 2
      then show ?thesis using n by auto
    qed
  qed
  from e 1 2 3 show ?case by blast
qed

subsection \<open>The update step\<close>

lemma update_step_same [simp]:
  "ps_v (pso_update_step man objective i s) = ps_v s"
  "ps_xprev (pso_update_step man objective i s) = ps_xprev s"
  "ps_world (pso_update_step man objective i s) = ps_world s"
  "ps_stdout (pso_update_step man objective i s) = ps_stdout s"
  "ps_maxiter (pso_update_step man objective i s) = ps_maxiter s"
  "ps_maxcostevals (pso_update_step man objective i s) = ps_maxcostevals s"
  "ps_populationsize (pso_update_step man objective i s) = ps_populationsize s"
  "ps_costevals (pso_update_step man objective i s) = ps_costevals s"
  "ps_iter (pso_update_step man objective i s) = ps_iter s"
  "ps_objective_calls (pso_update_step man objective i s) = Suc (ps_objective_calls s)"
  "length (ps_x (pso_update_step man objective i s)) = length (ps_x s)"
  "length (ps_y (pso_update_step man objective i s)) = length (ps_y s)"
  "length (ps_fy (pso_update_step man objective i s)) = length (ps_fy s)"
  "length (ps_costs (pso_update_step man objective i s)) = length (ps_costs s)"
  by (simp_all add: pso_update_step_def Let_def)

lemma update_step_fbest: "ps_fbest (pso_update_step man objective i s) \<le> ps_fbest s"
  by (simp add: pso_update_step_def Let_def)

lemma update_step_fy: "ps_fy (pso_update_step man objective i s) ! j \<le> ps_fy s ! j"
  by (cases "i < length (ps_fy s)"; cases "j = i")
    (simp_all add: pso_update_step_def Let_def list_update_beyond)

lemma update_step_best_inv:
  assumes inv: "pso_best_inv s"
      and i: "i < length (ps_fy s)"
      and len: "length (ps_y s) = length (ps_fy s)"
  shows "pso_best_inv (pso_update_step man objective i s)"
proof -
  let ?fxi = "objective (ps_x s ! i)"
  let ?xi = "ps_x s ! i"
  from inv have fb: "ps_fbest s = Min (set (ps_fy s))"
    and zb: "(ps_fbest s, ps_xbest s) \<in> set (zip (ps_fy s) (ps_y s))"
    unfolding pso_best_inv_def by blast+
  from zb obtain j where j: "j < length (ps_fy s)" "ps_fy s ! j = ps_fbest s"
    "ps_y s ! j = ps_xbest s"
    by (auto simp: in_set_zip)
  have ne: "set (ps_fy s) \<noteq> {}" using i by auto
  have lb: "ps_fbest s \<le> a" if "a \<in> set (ps_fy s)" for a
    using that fb by simp
  show ?thesis
  proof (cases "?fxi < ps_fy s ! i")
    case False
    then have st: "ps_fy (pso_update_step man objective i s) = ps_fy s"
        "ps_y (pso_update_step man objective i s) = ps_y s"
        "ps_fbest (pso_update_step man objective i s) = ps_fbest s"
        "ps_xbest (pso_update_step man objective i s) = ps_xbest s"
      by (simp_all add: pso_update_step_def Let_def)
    show ?thesis unfolding pso_best_inv_def st using fb zb by blast
  next
    case True
    let ?fy = "(ps_fy s)[i := ?fxi]"
    let ?y = "(ps_y s)[i := ?xi]"
    have sub: "set ?fy \<subseteq> insert ?fxi (set (ps_fy s))"
      by (rule set_update_subset_insert)
    have mem: "?fxi \<in> set ?fy"
      using i by (simp add: set_update_memI)
    show ?thesis
    proof (cases "?fxi < ps_fbest s")
      case glob: True
      have st: "ps_fy (pso_update_step man objective i s) = ?fy"
        "ps_y (pso_update_step man objective i s) = ?y"
        "ps_fbest (pso_update_step man objective i s) = ?fxi"
        "ps_xbest (pso_update_step man objective i s) = ?xi"
        using True glob i by (simp_all add: pso_update_step_def Let_def)
      have "Min (set ?fy) = ?fxi"
      proof (rule Min_eqI)
        show "finite (set ?fy)" by simp
        show "?fxi \<in> set ?fy" by (rule mem)
        fix a assume "a \<in> set ?fy"
        with sub have "a = ?fxi \<or> a \<in> set (ps_fy s)" by auto
        then show "?fxi \<le> a" using lb glob by force
      qed
      moreover have "(?fxi, ?xi) \<in> set (zip ?fy ?y)"
        using i len by (auto simp: in_set_zip intro!: exI [of _ i])
      ultimately show ?thesis unfolding pso_best_inv_def st by simp
    next
      case noglob: False
      have st: "ps_fy (pso_update_step man objective i s) = ?fy"
        "ps_y (pso_update_step man objective i s) = ?y"
        "ps_fbest (pso_update_step man objective i s) = ps_fbest s"
        "ps_xbest (pso_update_step man objective i s) = ps_xbest s"
        using True noglob i by (simp_all add: pso_update_step_def Let_def)
      have ji: "j \<noteq> i" using j True noglob by auto
      have jn: "?fy ! j = ps_fbest s" "?y ! j = ps_xbest s"
        using j ji by simp_all
      have "Min (set ?fy) = ps_fbest s"
      proof (rule Min_eqI)
        show "finite (set ?fy)" by simp
        show "ps_fbest s \<in> set ?fy"
          using jn(1) j(1) by (metis length_list_update nth_mem)
        fix a assume "a \<in> set ?fy"
        with sub have "a = ?fxi \<or> a \<in> set (ps_fy s)" by auto
        then show "ps_fbest s \<le> a" using lb noglob by force
      qed
      moreover have "(ps_fbest s, ps_xbest s) \<in> set (zip ?fy ?y)"
        using jn j(1) len by (auto simp: in_set_zip intro!: exI [of _ j])
      ultimately show ?thesis unfolding pso_best_inv_def st by simp
    qed
  qed
qed

lemma update_step_wf: "pso_wf s \<Longrightarrow> pso_wf (pso_update_step man objective i s)"
  unfolding pso_wf_def by (simp flip: length_greater_0_conv)

lemma velocity_step_same [simp]:
  "ps_x (pso_velocity_step rnd_rand man self w i s) = ps_x s"
  "ps_y (pso_velocity_step rnd_rand man self w i s) = ps_y s"
  "ps_xprev (pso_velocity_step rnd_rand man self w i s) = ps_xprev s"
  "ps_costs (pso_velocity_step rnd_rand man self w i s) = ps_costs s"
  "ps_fy (pso_velocity_step rnd_rand man self w i s) = ps_fy s"
  "ps_fbest (pso_velocity_step rnd_rand man self w i s) = ps_fbest s"
  "ps_xbest (pso_velocity_step rnd_rand man self w i s) = ps_xbest s"
  "ps_stdout (pso_velocity_step rnd_rand man self w i s) = ps_stdout s"
  "ps_maxiter (pso_velocity_step rnd_rand man self w i s) = ps_maxiter s"
  "ps_maxcostevals (pso_velocity_step rnd_rand man self w i s) = ps_maxcostevals s"
  "ps_populationsize (pso_velocity_step rnd_rand man self w i s) = ps_populationsize s"
  "ps_costevals (pso_velocity_step rnd_rand man self w i s) = ps_costevals s"
  "ps_iter (pso_velocity_step rnd_rand man self w i s) = ps_iter s"
  "ps_objective_calls (pso_velocity_step rnd_rand man self w i s) = ps_objective_calls s"
  "length (ps_v (pso_velocity_step rnd_rand man self w i s)) = length (ps_v s)"
  by (simp_all add: pso_velocity_step_def Let_def split: prod.splits)

lemma velocity_loop_same:
  "same_bests s (fold (pso_velocity_step rnd_rand man self w) js s)"
  by (rule fold_invariant) (simp_all add: same_bests_def)

lemma update_loop_calls:
  "ps_objective_calls (fold (pso_update_step man objective) js s)
     = ps_objective_calls s + length js"
  by (induction js arbitrary: s) simp_all

lemma update_loop_lowered:
  fixes s :: "('p, 'v, 'w) pso_state"
  shows "lowered s (fold (pso_update_step man objective) js s)"
proof (rule fold_invariant)
  show "lowered s s" by (simp add: lowered_def)
next
  fix i and t :: "('p, 'v, 'w) pso_state"
  assume "lowered s t"
  then show "lowered s (pso_update_step man objective i t)"
    unfolding lowered_def
    using update_step_fbest [of man objective i t] update_step_fy [of man objective i t]
    by (auto intro: order_trans)
qed

lemma update_loop_inv:
  fixes s :: "('p, 'v, 'w) pso_state"
  assumes "pso_wf s" and "pso_best_inv s" and "n \<le> length (ps_x s)"
  shows "pso_wf (fold (pso_update_step man objective) [0..<n] s)
         \<and> pso_best_inv (fold (pso_update_step man objective) [0..<n] s)"
proof -
  let ?P = "\<lambda>t. pso_wf t \<and> pso_best_inv t \<and> length (ps_x t) = length (ps_x s)"
  have "?P (fold (pso_update_step man objective) [0..<n] s)"
  proof (rule fold_invariant)
    show "?P s" using assms by simp
  next
    fix i and t :: "('p, 'v, 'w) pso_state"
    assume i: "i \<in> set [0..<n]" and t: "?P t"
    then have b: "i < length (ps_fy t)" "length (ps_y t) = length (ps_fy t)"
      using assms(3) by (simp_all add: pso_wf_def)
    have "pso_wf (pso_update_step man objective i t)"
      using t by (simp add: update_step_wf)
    moreover have "pso_best_inv (pso_update_step man objective i t)"
      using t b by (simp add: update_step_best_inv)
    moreover have "length (ps_x (pso_update_step man objective i t)) = length (ps_x s)"
      using t by simp
    ultimately show "?P (pso_update_step man objective i t)" by simp
  qed
  then show ?thesis by simp
qed

subsection \<open>One pass\<close>

lemma pso_best_inv_cong:
  "ps_fy t = ps_fy s \<Longrightarrow> ps_y t = ps_y s \<Longrightarrow> ps_fbest t = ps_fbest s \<Longrightarrow>
     ps_xbest t = ps_xbest s \<Longrightarrow> pso_best_inv t = pso_best_inv s"
  by (simp add: pso_best_inv_def)

lemma inertia_weight_Inr:
  "inertia_weight iter maxiter = Inr w \<longleftrightarrow>
     maxiter \<noteq> 0 \<and> w = 4 / 10 + 5 / 10 * (1 - real_of_int iter / real_of_int maxiter)"
  by (auto simp: inertia_weight_def py_div_def)

lemma pso_iteration_Inr:
  "pso_iteration rnd_rand self problem s = Inr s' \<longleftrightarrow>
     ps_maxiter s \<noteq> 0 \<and>
     s' = (let w = 4 / 10 + 5 / 10 * (1 - real_of_int (ps_iter s) / real_of_int (ps_maxiter s));
               s1 = fold (pso_velocity_step rnd_rand (problem_manifold problem) self w)
                      [0..<length (ps_x s)] s;
               s2 = s1\<lparr> ps_xprev := ps_x s1 \<rparr>;
               s3 = fold (pso_update_step (problem_manifold problem) (problem_cost problem))
                      [0..<length (ps_x s2)] s2
           in s3\<lparr> ps_costevals := ps_costevals s3 + ps_populationsize s3 \<rparr>)"
  by (auto simp: pso_iteration_def inertia_weight_def py_div_def Let_def)

lemma pso_iteration_props:
  assumes "pso_iteration rnd_rand self problem s = Inr s'"
  shows "ps_fbest s' \<le> ps_fbest s"
    and "ps_fy s' ! j \<le> ps_fy s ! j"
    and "ps_costevals s' = ps_costevals s + ps_populationsize s"
    and "ps_populationsize s' = ps_populationsize s"
    and "ps_iter s' = ps_iter s"
    and "ps_maxiter s' = ps_maxiter s"
    and "ps_maxcostevals s' = ps_maxcostevals s"
    and "ps_stdout s' = ps_stdout s"
    and "ps_objective_calls s' = ps_objective_calls s + length (ps_x s)"
    and "length (ps_x s') = length (ps_x s)"
    and "length (ps_fy s') = length (ps_fy s)"
proof -
  define w where "w = 4 / 10 + 5 / 10 * (1 - real_of_int (ps_iter s) / real_of_int (ps_maxiter s))"
  define s1 where "s1 = fold (pso_velocity_step rnd_rand (problem_manifold problem) self w)
                      [0..<length (ps_x s)] s"
  define s2 where "s2 = s1\<lparr> ps_xprev := ps_x s1 \<rparr>"
  define s3 where "s3 = fold (pso_update_step (problem_manifold problem) (problem_cost problem))
                      [0..<length (ps_x s2)] s2"
  have s': "s' = s3\<lparr> ps_costevals := ps_costevals s3 + ps_populationsize s3 \<rparr>"
    using assms unfolding pso_iteration_Inr w_def s1_def s2_def s3_def by (simp add: Let_def)
  have 1: "same_bests s s1" unfolding s1_def by (rule velocity_loop_same)
  have 3: "lowered s2 s3" unfolding s3_def by (rule update_loop_lowered)
  have c: "ps_objective_calls s3 = ps_objective_calls s2 + length (ps_x s2)"
    unfolding s3_def using update_loop_calls [of _ _ "[0..<length (ps_x s2)]" s2] by simp
  show "ps_fbest s' \<le> ps_fbest s"
    and "ps_fy s' ! j \<le> ps_fy s ! j"
    and "ps_costevals s' = ps_costevals s + ps_populationsize s"
    and "ps_populationsize s' = ps_populationsize s"
    and "ps_iter s' = ps_iter s"
    and "ps_maxiter s' = ps_maxiter s"
    and "ps_maxcostevals s' = ps_maxcostevals s"
    and "ps_stdout s' = ps_stdout s"
    and "ps_objective_calls s' = ps_objective_calls s + length (ps_x s)"
    and "length (ps_x s') = length (ps_x s)"
    and "length (ps_fy s') = length (ps_fy s)"
    using 1 3 c unfolding s' s2_def same_bests_def lowered_def by simp_all
qed

lemma pso_iteration_inv:
  assumes "pso_iteration rnd_rand self problem s = Inr s'"
      and "pso_wf s" and "pso_best_inv s"
  shows "pso_wf s' \<and> pso_best_inv s'"
proof -
  define w where "w = 4 / 10 + 5 / 10 * (1 - real_of_int (ps_iter s) / real_of_int (ps_maxiter s))"
  define s1 where "s1 = fold (pso_velocity_step rnd_rand (problem_manifold problem) self w)
                      [0..<length (ps_x s)] s"
  define s2 where "s2 = s1\<lparr> ps_xprev := ps_x s1 \<rparr>"
  define s3 where "s3 = fold (pso_update_step (problem_manifold problem) (problem_cost problem))
                      [0..<length (ps_x s2)] s2"
  have s': "s' = s3\<lparr> ps_costevals := ps_costevals s3 + ps_populationsize s3 \<rparr>"
    using assms(1) unfolding pso_iteration_Inr w_def s1_def s2_def s3_def by (simp add: Let_def)
  have 1: "same_bests s s1" unfolding s1_def by (rule velocity_loop_same)
  have e: "ps_x s2 = ps_x s" "ps_y s2 = ps_y s" "ps_xprev s2 = ps_x s"
    "length (ps_v s2) = length (ps_v s)" "ps_costs s2 = ps_costs s" "ps_fy s2 = ps_fy s"
    "ps_fbest s2 = ps_fbest s" "ps_xbest s2 = ps_xbest s"
    "ps_populationsize s2 = ps_populationsize s"
    using 1 unfolding s2_def same_bests_def by simp_all
  have wf2: "pso_wf s2" using assms(2) unfolding pso_wf_def e by simp
  have inv2: "pso_best_inv s2" using assms(3) pso_best_inv_cong [of s2 s] e by simp
  have 3: "pso_wf s3 \<and> pso_best_inv s3"
    unfolding s3_def using wf2 inv2 by (intro update_loop_inv) simp_all
  then have "pso_wf s'" unfolding s' pso_wf_def by simp
  moreover have "pso_best_inv s'"
    using 3 pso_best_inv_cong [of s' s3] unfolding s' by simp
  ultimately show ?thesis by simp
qed

subsection \<open>Before the loop\<close>

lemma pso_population_props:
  assumes "pso_population man p x wd = Inr (xs, p', wd', out)" and "xs \<noteq> []"
  shows "int (length xs) = p'"
proof (cases x)
  case X_None
  then obtain wd1 where r: "rand_points (man_rand man) (nat p) wd = (xs, wd1)" and p: "p' = p"
    using assms(1) by (auto simp: pso_population_def Let_def split: prod.splits)
  from length_rand_points [OF r] have "length xs = nat p" .
  moreover from this assms(2) have "0 < p" by (cases "p \<le> 0") auto
  ultimately show ?thesis using p by simp
next
  case X_not_iterable
  then show ?thesis using assms(1) by (simp add: pso_population_def)
next
  case (X_list ys)
  then show ?thesis using assms(1) by (auto simp: pso_population_def split: if_splits)
qed

lemma pso_init_props:
  assumes "pso_init self problem x wd = Inr s0"
  shows "pso_wf s0" and "pso_best_inv s0"
    and "ps_iter s0 = 0" and "ps_costevals s0 = ps_populationsize s0"
    and "ps_objective_calls s0 = length (ps_x s0)"
    and "ps_costs s0 = map (problem_cost problem) (ps_x s0)"
    and "ps_fy s0 = ps_costs s0" and "ps_y s0 = ps_x s0"
    and "ps_fbest s0 = Min (set (ps_costs s0))"
proof -
  define man where "man = problem_manifold problem"
  define obj where "obj = problem_cost problem"
  from assms obtain p xs p' wd1 out v wd2 imin where
    pop: "pso_population man p x wd = Inr (xs, p', wd1, out)"
    and rv: "randvecs (man_randvec man) xs wd1 = (v, wd2)"
    and am: "argmin (map obj xs) = Inr imin"
    and s0: "ps_x s0 = xs" "ps_y s0 = xs" "ps_xprev s0 = xs" "ps_v s0 = v"
      "ps_costs s0 = map obj xs" "ps_fy s0 = map obj xs" "ps_costevals s0 = p'"
      "ps_populationsize s0 = p'" "ps_fbest s0 = map obj xs ! imin" "ps_xbest s0 = xs ! imin"
      "ps_iter s0 = 0" "ps_objective_calls s0 = length xs"
    unfolding pso_init_def man_def obj_def
    by (auto simp: Let_def split: sum.splits prod.splits)
  from argmin_least [OF am] have imin: "imin < length xs"
    and least: "map obj xs ! imin = Min (set (map obj xs))" by simp_all
  from imin have ne: "xs \<noteq> []" by auto
  from pso_population_props [OF pop ne] have len: "int (length xs) = p'" .
  from length_randvecs [OF rv] have lv: "length v = length xs" .
  show "pso_wf s0" using ne len lv s0 by (simp add: pso_wf_def)
  have "(map obj xs ! imin, xs ! imin) \<in> set (zip (map obj xs) xs)"
    using imin by (auto simp: in_set_zip intro!: exI [of _ imin])
  then show "pso_best_inv s0" using least s0 by (simp add: pso_best_inv_def)
  show "ps_iter s0 = 0" "ps_costevals s0 = ps_populationsize s0"
    "ps_objective_calls s0 = length (ps_x s0)"
    "ps_costs s0 = map (problem_cost problem) (ps_x s0)"
    "ps_fy s0 = ps_costs s0" "ps_y s0 = ps_x s0"
    using s0 by (simp_all add: obj_def)
  show "ps_fbest s0 = Min (set (ps_costs s0))" using s0 least by simp
qed

subsection \<open>The loop\<close>

lemma pso_loop_Suc_Inr:
  "pso_loop (Suc n) check rnd_rand self problem s = Some (Inr (s', r)) \<longleftrightarrow>
     ps_x s \<noteq> [] \<and>
     (\<exists>sr wd.
        pso_check_particles check (ps_maxiter s) (ps_maxcostevals s) (ps_iter s + 1)
          (ps_costevals s) (ps_x s) None (ps_world s) = (sr, wd) \<and>
        (if truthy sr
         then r = the sr \<and>
              s' = (if problem_verbosity problem \<ge> 1
                    then s\<lparr> ps_iter := ps_iter s + 1, ps_world := wd,
                            ps_stdout := ps_stdout s @ [the sr, []] \<rparr>
                    else s\<lparr> ps_iter := ps_iter s + 1, ps_world := wd \<rparr>)
         else \<exists>s3. pso_iteration rnd_rand self problem
                      (s\<lparr> ps_iter := ps_iter s + 1, ps_world := wd \<rparr>) = Inr s3 \<and>
                    pso_loop n check rnd_rand self problem s3 = Some (Inr (s', r))))"
  by (auto simp: Let_def split: sum.splits prod.splits)

lemma pso_loop_Suc_cases:
  assumes "pso_loop (Suc n) check rnd_rand self problem s = Some (Inr (s', r))"
  obtains (stop) sr wd where "ps_x s \<noteq> []"
      and "pso_check_particles check (ps_maxiter s) (ps_maxcostevals s) (ps_iter s + 1)
             (ps_costevals s) (ps_x s) None (ps_world s) = (sr, wd)"
      and "truthy sr"
      and "s' = (if problem_verbosity problem \<ge> 1
                 then s\<lparr> ps_iter := ps_iter s + 1, ps_world := wd,
                         ps_stdout := ps_stdout s @ [the sr, []] \<rparr>
                 else s\<lparr> ps_iter := ps_iter s + 1, ps_world := wd \<rparr>)"
    | (pass) sr wd s3 where "ps_x s \<noteq> []"
      and "pso_check_particles check (ps_maxiter s) (ps_maxcostevals s) (ps_iter s + 1)
             (ps_costevals s) (ps_x s) None (ps_world s) = (sr, wd)"
      and "\<not> truthy sr"
      and "pso_iteration rnd_rand self problem
             (s\<lparr> ps_iter := ps_iter s + 1, ps_world := wd \<rparr>) = Inr s3"
      and "pso_loop n check rnd_rand self problem s3 = Some (Inr (s', r))"
proof -
  from assms obtain sr wd where
    ne: "ps_x s \<noteq> []"
    and chk: "pso_check_particles check (ps_maxiter s) (ps_maxcostevals s) (ps_iter s + 1)
          (ps_costevals s) (ps_x s) None (ps_world s) = (sr, wd)"
    and rest: "if truthy sr
         then r = the sr \<and>
              s' = (if problem_verbosity problem \<ge> 1
                    then s\<lparr> ps_iter := ps_iter s + 1, ps_world := wd,
                            ps_stdout := ps_stdout s @ [the sr, []] \<rparr>
                    else s\<lparr> ps_iter := ps_iter s + 1, ps_world := wd \<rparr>)
         else \<exists>s3. pso_iteration rnd_rand self problem
                      (s\<lparr> ps_iter := ps_iter s + 1, ps_world := wd \<rparr>) = Inr s3 \<and>
                    pso_loop n check rnd_rand self problem s3 = Some (Inr (s', r))"
    unfolding pso_loop_Suc_Inr by blast
  show thesis
  proof (cases "truthy sr")
    case True
    with rest ne chk stop show thesis by simp
  next
    case False
    with rest obtain s3 where "pso_iteration rnd_rand self problem
                      (s\<lparr> ps_iter := ps_iter s + 1, ps_world := wd \<rparr>) = Inr s3"
      "pso_loop n check rnd_rand self problem s3 = Some (Inr (s', r))" by auto
    with False ne chk pass show thesis by blast
  qed
qed

lemma pso_wf_touch [simp]:
  "pso_wf (s\<lparr> ps_iter := k \<rparr>) = pso_wf s"
  "pso_wf (s\<lparr> ps_world := wd \<rparr>) = pso_wf s"
  "pso_wf (s\<lparr> ps_stdout := out \<rparr>) = pso_wf s"
  by (simp_all add: pso_wf_def)

lemma pso_best_inv_touch [simp]:
  "pso_best_inv (s\<lparr> ps_iter := k \<rparr>) = pso_best_inv s"
  "pso_best_inv (s\<lparr> ps_world := wd \<rparr>) = pso_best_inv s"
  "pso_best_inv (s\<lparr> ps_stdout := out \<rparr>) = pso_best_inv s"
  by (simp_all add: pso_best_inv_def)

lemma pso_loop_lowers:
  assumes "pso_loop n check rnd_rand self problem s = Some (Inr (s', r))"
  shows "ps_fbest s' \<le> ps_fbest s \<and> (\<forall>j. ps_fy s' ! j \<le> ps_fy s ! j)"
  using assms
proof (induction n arbitrary: s)
  case 0
  then show ?case by simp
next
  case (Suc n)
  from Suc.prems show ?case
  proof (cases rule: pso_loop_Suc_cases)
    case (stop sr wd)
    then show ?thesis by (simp split: if_splits)
  next
    case (pass sr wd s3)
    from pso_iteration_props(1,2) [OF pass(4)]
    have a: "ps_fbest s3 \<le> ps_fbest s" "\<And>j. ps_fy s3 ! j \<le> ps_fy s ! j" by simp_all
    from Suc.IH [OF pass(5)]
    have b: "ps_fbest s' \<le> ps_fbest s3" "\<And>j. ps_fy s' ! j \<le> ps_fy s3 ! j" by simp_all
    show ?thesis using a b by (meson order_trans)
  qed
qed

lemma pso_loop_inv:
  assumes "pso_loop n check rnd_rand self problem s = Some (Inr (s', r))"
      and "pso_wf s" and "pso_best_inv s"
  shows "pso_wf s' \<and> pso_best_inv s'"
  using assms
proof (induction n arbitrary: s)
  case 0
  then show ?case by simp
next
  case (Suc n)
  from Suc.prems(1) show ?case
  proof (cases rule: pso_loop_Suc_cases)
    case (stop sr wd)
    with Suc.prems(2,3) show ?thesis by (simp split: if_splits)
  next
    case (pass sr wd s3)
    from pso_iteration_inv [OF pass(4)] Suc.prems(2,3)
    have "pso_wf s3 \<and> pso_best_inv s3" by simp
    with Suc.IH [OF pass(5)] show ?thesis by simp
  qed
qed

subsection \<open>The states at the stopping test\<close>

lemma at_check_shift:
  assumes ne: "ps_x s \<noteq> []"
      and chk: "pso_check_particles check (ps_maxiter s) (ps_maxcostevals s) (ps_iter s + 1)
                  (ps_costevals s) (ps_x s) None (ps_world s) = (sr, wd)"
      and go: "\<not> truthy sr"
      and it: "pso_iteration rnd_rand self problem
                 (s\<lparr> ps_iter := ps_iter s + 1, ps_world := wd \<rparr>) = Inr s3"
      and at: "pso_at_check check rnd_rand self problem s3 c"
  shows "pso_at_check check rnd_rand self problem s c"
  using at
proof (induction rule: pso_at_check.induct)
  case first_pass
  let ?c = "s\<lparr> ps_iter := ps_iter s + 1 \<rparr>"
  have 1: "pso_at_check check rnd_rand self problem s ?c"
    by (rule pso_at_check.first_pass)
  have 2: "ps_x ?c \<noteq> []" using ne by simp
  have 3: "pso_check_particles check (ps_maxiter ?c) (ps_maxcostevals ?c) (ps_iter ?c)
             (ps_costevals ?c) (ps_x ?c) None (ps_world ?c) = (sr, wd)"
    using chk by simp
  have 4: "pso_iteration rnd_rand self problem (?c\<lparr> ps_world := wd \<rparr>) = Inr s3"
    using it by simp
  from pso_at_check.next_pass [OF 1 2 3 go 4] show ?case .
next
  case (next_pass c sr' wd' s')
  from pso_at_check.next_pass [OF next_pass.IH next_pass.hyps(2,3,4,5)] show ?case .
qed

lemma pso_loop_stops_at_check:
  assumes "pso_loop n check rnd_rand self problem s = Some (Inr (s', r))"
  shows "\<exists>c. pso_at_check check rnd_rand self problem s c \<and>
             ps_costevals s' = ps_costevals c \<and> ps_iter s' = ps_iter c \<and>
             ps_objective_calls s' = ps_objective_calls c \<and>
             ps_populationsize s' = ps_populationsize c"
  using assms
proof (induction n arbitrary: s)
  case 0
  then show ?case by simp
next
  case (Suc n)
  from Suc.prems show ?case
  proof (cases rule: pso_loop_Suc_cases)
    case (stop sr wd)
    have "pso_at_check check rnd_rand self problem s (s\<lparr> ps_iter := ps_iter s + 1 \<rparr>)"
      by (rule pso_at_check.first_pass)
    moreover from stop(4)
    have "ps_costevals s' = ps_costevals s" "ps_iter s' = ps_iter s + 1"
      "ps_objective_calls s' = ps_objective_calls s"
      "ps_populationsize s' = ps_populationsize s"
      by (simp_all split: if_splits)
    ultimately show ?thesis by (intro exI [of _ "s\<lparr> ps_iter := ps_iter s + 1 \<rparr>"]) simp
  next
    case (pass sr wd s3)
    from Suc.IH [OF pass(5)] obtain c where
      c: "pso_at_check check rnd_rand self problem s3 c"
      and e: "ps_costevals s' = ps_costevals c" "ps_iter s' = ps_iter c"
        "ps_objective_calls s' = ps_objective_calls c"
        "ps_populationsize s' = ps_populationsize c"
      by blast
    from at_check_shift [OF pass(1,2,3,4) c] e show ?thesis by blast
  qed
qed

lemma at_check_counts:
  assumes "pso_at_check check rnd_rand self problem s0 c"
      and "pso_wf s0" and "pso_best_inv s0"
      and "ps_iter s0 = 0" and "ps_costevals s0 = ps_populationsize s0"
      and "ps_objective_calls s0 = length (ps_x s0)"
  shows "pso_wf c \<and> pso_best_inv c \<and>
         ps_costevals c = ps_populationsize c * ps_iter c \<and>
         int (ps_objective_calls c) = ps_costevals c \<and>
         ps_populationsize c = ps_populationsize s0 \<and> 1 \<le> ps_iter c"
  using assms
proof (induction rule: pso_at_check.induct)
  case first_pass
  then show ?case by (simp add: pso_wf_def)
next
  case (next_pass c sr wd s')
  then have c: "pso_wf c" "pso_best_inv c"
    "ps_costevals c = ps_populationsize c * ps_iter c"
    "int (ps_objective_calls c) = ps_costevals c"
    "ps_populationsize c = ps_populationsize s0" "1 \<le> ps_iter c"
    by simp_all
  let ?c = "c\<lparr> ps_world := wd \<rparr>"
  note it = next_pass.hyps(5)
  from pso_iteration_inv [OF it] c have wf: "pso_wf s'" "pso_best_inv s'" by simp_all
  from pso_iteration_props(3,4,5,9) [OF it]
  have p: "ps_costevals s' = ps_costevals c + ps_populationsize c"
    "ps_populationsize s' = ps_populationsize c" "ps_iter s' = ps_iter c"
    "ps_objective_calls s' = ps_objective_calls c + length (ps_x c)"
    by simp_all
  have len: "int (length (ps_x c)) = ps_populationsize c"
    using c(1) by (simp add: pso_wf_def)
  have "ps_costevals s' = ps_populationsize s' * (ps_iter s' + 1)"
    using p c(3) by (simp add: algebra_simps)
  moreover have "int (ps_objective_calls s') = ps_costevals s'"
    using p c(4) len by simp
  ultimately show ?case using wf p c by simp
qed

section \<open>Particle swarm: the initial population\<close>




section \<open>Particle swarm: the inertia weight\<close>

text \<open>
  C8. In a pass with counter \<^verbatim>\<open>iter\<close> the inertia weight is
  \<^verbatim>\<open>0.4 + 0.5 * (1 - iter / maxiter)\<close>, and it is the factor of the transported old
  velocity in the new velocity of every particle. As a function of \<^verbatim>\<open>iter\<close> it is
  affine with slope \<^verbatim>\<open>-0.5 / maxiter\<close>: 0.9 at \<^verbatim>\<open>iter = 0\<close>, the value of the counter when
  the run starts, and 0.4 at \<^verbatim>\<open>iter = maxiter\<close>.
\<close>

theorem inertia_weight_linear_decay:
  fixes s :: "('p, 'v::real_vector, 'w) pso_state" and problem :: "('p, 'v, 'w) problem"
  defines "man \<equiv> problem_manifold problem"
  defines "w \<equiv> 4 / 10 + 5 / 10 * (1 - real_of_int (ps_iter s) / real_of_int (ps_maxiter s))"
  assumes maxiter: "ps_maxiter s \<noteq> 0"
      and i: "i < length (ps_x s)"
      and len: "length (ps_v s) = length (ps_x s)"
  shows "inertia_weight (ps_iter s) (ps_maxiter s) = Inr w
         \<and> (\<exists>s' r1 r2.
              pso_iteration rnd_rand self problem s = Inr s' \<and>
              ps_v s' ! i =
                w *\<^sub>R man_transp man (ps_xprev s ! i) (ps_x s ! i) (ps_v s ! i)
                + (r1 * pso_nostalgia self) *\<^sub>R man_log man (ps_x s ! i) (ps_y s ! i)
                + (r2 * pso_social self) *\<^sub>R man_log man (ps_x s ! i) (ps_xbest s))
         \<and> inertia_weight k (ps_maxiter s)
             = Inr (9 / 10 - (5 / 10) * real_of_int k / real_of_int (ps_maxiter s))
         \<and> inertia_weight 0 (ps_maxiter s) = Inr (9 / 10)
         \<and> inertia_weight (ps_maxiter s) (ps_maxiter s) = Inr (4 / 10)"
proof -
  have 1: "inertia_weight (ps_iter s) (ps_maxiter s) = Inr w"
    using maxiter by (simp add: inertia_weight_Inr w_def)
  define s1 where "s1 = fold (pso_velocity_step rnd_rand man self w) [0..<length (ps_x s)] s"
  define s2 where "s2 = s1\<lparr> ps_xprev := ps_x s1 \<rparr>"
  define s3 where "s3 = fold (pso_update_step man (problem_cost problem))
                      [0..<length (ps_x s2)] s2"
  define s' where "s' = s3\<lparr> ps_costevals := ps_costevals s3 + ps_populationsize s3 \<rparr>"
  have it: "pso_iteration rnd_rand self problem s = Inr s'"
    using maxiter unfolding pso_iteration_Inr s'_def s3_def s2_def s1_def w_def man_def
    by (simp add: Let_def)
  from velocity_loop_shape [of "length (ps_x s)" s rnd_rand man self w] len
  obtain vs wd where
    f: "s1 = s\<lparr> ps_v := vs, ps_world := wd \<rparr>"
    and lo: "\<forall>j<length (ps_x s). \<exists>r1 r2. vs ! j =
            w *\<^sub>R man_transp man (ps_xprev s ! j) (ps_x s ! j) (ps_v s ! j)
            + (r1 * pso_nostalgia self) *\<^sub>R man_log man (ps_x s ! j) (ps_y s ! j)
            + (r2 * pso_social self) *\<^sub>R man_log man (ps_x s ! j) (ps_xbest s)"
    unfolding s1_def by auto
  have "lowered s2 s3" unfolding s3_def by (rule update_loop_lowered)
  then have "ps_v s' = vs"
    unfolding s'_def s2_def f lowered_def by simp
  with lo i obtain r1 r2 where
    v: "ps_v s' ! i =
            w *\<^sub>R man_transp man (ps_xprev s ! i) (ps_x s ! i) (ps_v s ! i)
            + (r1 * pso_nostalgia self) *\<^sub>R man_log man (ps_x s ! i) (ps_y s ! i)
            + (r2 * pso_social self) *\<^sub>R man_log man (ps_x s ! i) (ps_xbest s)"
    by auto
  have 3: "inertia_weight k (ps_maxiter s)
             = Inr (9 / 10 - (5 / 10) * real_of_int k / real_of_int (ps_maxiter s))"
    using maxiter by (simp add: inertia_weight_Inr algebra_simps)
  have 4: "inertia_weight 0 (ps_maxiter s) = Inr (9 / 10)"
    using maxiter by (simp add: inertia_weight_Inr)
  have 5: "inertia_weight (ps_maxiter s) (ps_maxiter s) = Inr (4 / 10)"
    using maxiter by (simp add: inertia_weight_Inr)
  from 1 it v 3 4 5 show ?thesis by blast
qed

theorem inertia_weight_linear_decay_witness:
  "inertia_weight 1 5 = Inr (4 / 5)
   \<and> map_sum id ps_v (pso_iteration rnd_tenth swarm_solver square_problem
                        (swarm_start\<lparr> ps_iter := 1 \<rparr>)) = Inr [4 / 5]
   \<and> inertia_weight 0 5 = Inr (9 / 10) \<and> inertia_weight 5 5 = Inr (4 / 10)"
proof -
  have h: "ps_maxiter (swarm_start\<lparr> ps_iter := 1 \<rparr>) \<noteq> 0"
    "0 < length (ps_x (swarm_start\<lparr> ps_iter := 1 \<rparr>))"
    "length (ps_v (swarm_start\<lparr> ps_iter := 1 \<rparr>)) = length (ps_x (swarm_start\<lparr> ps_iter := 1 \<rparr>))"
    by (simp_all add: swarm_start_def)
  note at = inertia_weight_linear_decay
    [where s = "swarm_start\<lparr> ps_iter := 1 \<rparr>" and i = 0 and rnd_rand = rnd_tenth
      and self = swarm_solver and problem = square_problem and k = 5, OF h]
  have e: "map_sum id ps_v (pso_iteration rnd_tenth swarm_solver square_problem
                        (swarm_start\<lparr> ps_iter := 1 \<rparr>)) = Inr [4 / 5]"
    by (simp add: pso_iteration_def inertia_weight_def py_div_def pso_velocity_step_def
        pso_update_step_def swarm_start_def swarm_solver_def square_problem_def
        real_line_def rnd_tenth_def Let_def)
  from at e show ?thesis by (simp add: swarm_start_def)
qed

section \<open>Particle swarm: the position whose cost is evaluated\<close>

text \<open>
  C1, on the code. Line 170 stores the new position in \<^verbatim>\<open>x[i]\<close>, but line 172 evaluates
  the cost at \<^verbatim>\<open>xi\<close>, the position before the move, and lines 178-183 record that cost and
  that position. On the one-particle swarm that starts at 0 with \<^verbatim>\<open>cost(x) = (x - 5)^2\<close>:
  the first pass moves the particle to 4/5, of cost 441/25, below the personal best 25,
  and records nothing; the second pass moves it to 142/125, of cost 233289/15625, and
  records 441/25 with the position 4/5 as personal and global best, so that the
  personal best is above the cost of the current position and \<^verbatim>\<open>solve\<close> returns 4/5.
\<close>

theorem cost_evaluated_at_previous_position:
  "pso_init swarm_solver square_problem (X_list [0]) 0 = Inr swarm_start
   \<and> pso_iteration rnd_tenth swarm_solver square_problem (swarm_start\<lparr> ps_iter := 1 \<rparr>)
       = Inr swarm_first
   \<and> ps_x swarm_first = [4 / 5] \<and> ps_costs swarm_first = [25]
   \<and> ps_fy swarm_first = [25] \<and> ps_y swarm_first = [0]
   \<and> problem_cost square_problem (4 / 5) = 441 / 25
   \<and> ParticleSwarm_solve (Suc (Suc (Suc 0))) pso_stop rnd_tenth swarm_solver square_problem
       (X_list [0]) 0
       = Some (Inr (4 / 5, ''Terminated - max cost evals reached'', swarm_end))
   \<and> ps_x swarm_end = [142 / 125] \<and> ps_costs swarm_end = [441 / 25]
   \<and> ps_fy swarm_end = [441 / 25] \<and> ps_y swarm_end = [4 / 5]
   \<and> problem_cost square_problem (142 / 125) = 233289 / 15625
   \<and> \<not> ps_fy swarm_end ! 0 \<le> problem_cost square_problem (ps_x swarm_end ! 0)"
  by (simp add: ParticleSwarm_solve_def pso_init_def pso_population_def argmin_def
      pso_iteration_def inertia_weight_def py_div_def pso_velocity_step_def
      pso_update_step_def pso_stop_def swarm_start_def swarm_first_def swarm_end_def
      swarm_solver_def square_problem_def real_line_def rnd_tenth_def Let_def)

section \<open>Particle swarm: a run of the one-particle swarm\<close>

lemma swarm_init: "pso_init swarm_solver square_problem (X_list [0]) 0 = Inr swarm_start"
  by (simp add: pso_init_def pso_population_def argmin_def swarm_start_def swarm_solver_def
      square_problem_def real_line_def Let_def)

lemma swarm_first_pass:
  "pso_iteration rnd_tenth swarm_solver square_problem (swarm_start\<lparr> ps_iter := 1 \<rparr>)
     = Inr swarm_first"
  by (simp add: pso_iteration_def inertia_weight_def py_div_def pso_velocity_step_def
      pso_update_step_def swarm_start_def swarm_first_def swarm_solver_def
      square_problem_def real_line_def rnd_tenth_def Let_def)

lemma swarm_loop:
  "pso_loop (Suc (Suc (Suc 0))) pso_stop rnd_tenth swarm_solver square_problem swarm_start
     = Some (Inr (swarm_end, ''Terminated - max cost evals reached''))"
  by (simp add: pso_iteration_def inertia_weight_def py_div_def pso_velocity_step_def
      pso_update_step_def pso_stop_def swarm_start_def swarm_end_def swarm_solver_def
      square_problem_def real_line_def rnd_tenth_def Let_def)

lemma swarm_solve:
  "ParticleSwarm_solve (Suc (Suc (Suc 0))) pso_stop rnd_tenth swarm_solver square_problem
     (X_list [0]) 0
     = Some (Inr (4 / 5, ''Terminated - max cost evals reached'', swarm_end))"
  unfolding ParticleSwarm_solve_def swarm_init sum.case swarm_loop
  by (simp add: swarm_end_def)

lemma swarm_second_check:
  "pso_at_check pso_stop rnd_tenth swarm_solver square_problem swarm_start
     (swarm_first\<lparr> ps_iter := 2 \<rparr>)"
proof -
  let ?c = "swarm_start\<lparr> ps_iter := ps_iter swarm_start + 1 \<rparr>"
  have 1: "pso_at_check pso_stop rnd_tenth swarm_solver square_problem swarm_start ?c"
    by (rule pso_at_check.first_pass)
  have 2: "ps_x ?c \<noteq> []" by (simp add: swarm_start_def)
  have 3: "pso_check_particles pso_stop (ps_maxiter ?c) (ps_maxcostevals ?c) (ps_iter ?c)
             (ps_costevals ?c) (ps_x ?c) None (ps_world ?c) = (None, 1)"
    by (simp add: swarm_start_def pso_stop_def)
  have 4: "\<not> truthy None" by simp
  have 5: "pso_iteration rnd_tenth swarm_solver square_problem (?c\<lparr> ps_world := 1 \<rparr>)
             = Inr swarm_first"
    using swarm_first_pass by (simp add: swarm_start_def)
  from pso_at_check.next_pass [OF 1 2 3 4 5] show ?thesis
    by (simp add: swarm_first_def)
qed

section \<open>Particle swarm: the global best\<close>

text \<open>
  C6. \<^verbatim>\<open>fbest\<close> starts as the least of the costs of the initial particles and never
  goes up: a velocity step leaves it alone, the update of one particle can only lower
  it, so a pass, the whole loop and \<^verbatim>\<open>solve\<close> (which returns \<^verbatim>\<open>xbest\<close>) end with an \<^verbatim>\<open>fbest\<close>
  that is at most the one they started with.
\<close>

theorem fbest_nonincreasing:
  fixes s s' sf s0 :: "('p, 'v::real_vector, 'w) pso_state"
    and problem :: "('p, 'v, 'w) problem"
  shows "(pso_init self problem x wd = Inr s0 \<longrightarrow>
            ps_fbest s0 = Min (set (map (problem_cost problem) (ps_x s0))))
         \<and> ps_fbest (pso_velocity_step rnd_rand man self w i s) = ps_fbest s
         \<and> ps_fbest (pso_update_step man objective i s) \<le> ps_fbest s
         \<and> (pso_iteration rnd_rand self problem s = Inr s' \<longrightarrow> ps_fbest s' \<le> ps_fbest s)
         \<and> (pso_loop n check rnd_rand self problem s = Some (Inr (sf, r)) \<longrightarrow>
              ps_fbest sf \<le> ps_fbest s)
         \<and> (pso_init self problem x wd = Inr s0 \<and>
            ParticleSwarm_solve n check rnd_rand self problem x wd = Some (Inr (xbest, r, sf)) \<longrightarrow>
              xbest = ps_xbest sf \<and> ps_fbest sf \<le> ps_fbest s0)"
proof -
  have 1: "ps_fbest s0 = Min (set (map (problem_cost problem) (ps_x s0)))"
    if "pso_init self problem x wd = Inr s0"
    using pso_init_props(6,9) [OF that] by simp
  have 4: "ps_fbest s' \<le> ps_fbest s" if "pso_iteration rnd_rand self problem s = Inr s'"
    using pso_iteration_props(1) [OF that] .
  have 5: "ps_fbest sf \<le> ps_fbest s"
    if "pso_loop n check rnd_rand self problem s = Some (Inr (sf, r))"
    using pso_loop_lowers [OF that] by simp
  have 6: "xbest = ps_xbest sf \<and> ps_fbest sf \<le> ps_fbest s0"
    if i: "pso_init self problem x wd = Inr s0"
      and r: "ParticleSwarm_solve n check rnd_rand self problem x wd = Some (Inr (xbest, r, sf))"
  proof -
    from r have "pso_loop n check rnd_rand self problem s0 = Some (Inr (sf, r))"
      and "xbest = ps_xbest sf"
      unfolding ParticleSwarm_solve_def i
      by (auto split: option.splits sum.splits)
    with pso_loop_lowers show ?thesis by blast
  qed
  show ?thesis
    using 1 4 5 6 update_step_fbest [of man objective i s]
      velocity_step_same(6) [of rnd_rand man self w i s]
    by blast
qed

theorem fbest_nonincreasing_witness:
  "ps_fbest swarm_start = Min (set (map (problem_cost square_problem) (ps_x swarm_start)))
   \<and> ps_fbest swarm_first \<le> ps_fbest swarm_start
   \<and> 4 / 5 = ps_xbest swarm_end \<and> ps_fbest swarm_end \<le> ps_fbest swarm_start"
proof -
  note whole = fbest_nonincreasing
    [where self = swarm_solver and problem = square_problem and s = swarm_start
      and rnd_rand = rnd_tenth and check = pso_stop and n = "Suc (Suc (Suc 0))"
      and r = "''Terminated - max cost evals reached''" and sf = swarm_end]
  from whole swarm_loop have d: "ps_fbest swarm_end \<le> ps_fbest swarm_start"
    by blast
  note run = fbest_nonincreasing
    [where self = swarm_solver and problem = square_problem and x = "X_list [0]" and wd = 0
      and ?s0.0 = swarm_start and s = "swarm_start\<lparr> ps_iter := 1 \<rparr>" and s' = swarm_first
      and rnd_rand = rnd_tenth and check = pso_stop and n = "Suc (Suc (Suc 0))"
      and xbest = "4 / 5" and r = "''Terminated - max cost evals reached''"
      and sf = swarm_end and man = real_line and objective = "problem_cost square_problem"
      and i = 0 and w = 1]
  from run swarm_init
  have a: "ps_fbest swarm_start
             = Min (set (map (problem_cost square_problem) (ps_x swarm_start)))"
    by blast
  from run swarm_first_pass
  have "ps_fbest swarm_first \<le> ps_fbest (swarm_start\<lparr> ps_iter := 1 \<rparr>)"
    by blast
  then have b: "ps_fbest swarm_first \<le> ps_fbest swarm_start" by simp
  from run swarm_init swarm_solve
  have c: "4 / 5 = ps_xbest swarm_end \<and> ps_fbest swarm_end \<le> ps_fbest swarm_start"
    by blast
  from a b c d show ?thesis by blast
qed

text \<open>
  C9. After the initialisation and after every step of the loop (the velocity step of
  one particle, the update of one particle, a whole pass, the whole loop), \<^verbatim>\<open>fbest\<close> is
  the least of the personal-best costs \<^verbatim>\<open>fy\<close> and \<^verbatim>\<open>xbest\<close> is the personal-best position
  \<^verbatim>\<open>y[k]\<close> of a particle \<^verbatim>\<open>k\<close> with \<^verbatim>\<open>fy[k] = fbest\<close>; every \<^verbatim>\<open>fy[j]\<close> only goes down. The
  invariant is stated between the steps: inside the update of one particle, lines
  178-183 lower \<^verbatim>\<open>fy[i]\<close> before they lower \<^verbatim>\<open>fbest\<close>.
\<close>

theorem global_best_is_least_personal_best:
  fixes s s' sf s0 :: "('p, 'v::real_vector, 'w) pso_state"
    and problem :: "('p, 'v, 'w) problem"
  shows "(pso_init self problem x wd = Inr s0 \<longrightarrow> pso_wf s0 \<and> pso_best_inv s0)
         \<and> (pso_wf s \<and> pso_best_inv s \<longrightarrow>
              pso_wf (pso_velocity_step rnd_rand man self w i s)
              \<and> pso_best_inv (pso_velocity_step rnd_rand man self w i s))
         \<and> (pso_wf s \<and> pso_best_inv s \<and> i < length (ps_x s) \<longrightarrow>
              pso_wf (pso_update_step man objective i s)
              \<and> pso_best_inv (pso_update_step man objective i s))
         \<and> ps_fy (pso_velocity_step rnd_rand man self w i s) = ps_fy s
         \<and> ps_fy (pso_update_step man objective i s) ! j \<le> ps_fy s ! j
         \<and> (pso_wf s \<and> pso_best_inv s \<and> pso_iteration rnd_rand self problem s = Inr s' \<longrightarrow>
              pso_wf s' \<and> pso_best_inv s' \<and> ps_fy s' ! j \<le> ps_fy s ! j)
         \<and> (pso_wf s \<and> pso_best_inv s \<and>
            pso_loop n check rnd_rand self problem s = Some (Inr (sf, r)) \<longrightarrow>
              pso_wf sf \<and> pso_best_inv sf \<and> ps_fy sf ! j \<le> ps_fy s ! j)
         \<and> (pso_init self problem x wd = Inr s0 \<and>
            ParticleSwarm_solve n check rnd_rand self problem x wd = Some (Inr (xbest, r, sf)) \<longrightarrow>
              pso_best_inv sf \<and> xbest = ps_xbest sf \<and> ps_fy sf ! j \<le> ps_fy s0 ! j)
         \<and> (pso_wf s \<and> pso_best_inv s \<longrightarrow>
              ps_fbest s = Min (set (ps_fy s)) \<and>
              (\<exists>k<length (ps_x s). ps_fy s ! k = ps_fbest s \<and> ps_y s ! k = ps_xbest s))"
proof -
  have 1: "pso_wf s0 \<and> pso_best_inv s0" if "pso_init self problem x wd = Inr s0"
    using pso_init_props(1,2) [OF that] by simp
  have 2: "pso_wf (pso_velocity_step rnd_rand man self w i s)
           \<and> pso_best_inv (pso_velocity_step rnd_rand man self w i s)"
    if "pso_wf s" "pso_best_inv s"
    using that pso_best_inv_cong [of "pso_velocity_step rnd_rand man self w i s" s]
    by (simp add: pso_wf_def)
  have 3: "pso_wf (pso_update_step man objective i s)
           \<and> pso_best_inv (pso_update_step man objective i s)"
    if "pso_wf s" "pso_best_inv s" "i < length (ps_x s)"
    using that update_step_wf [of s man objective i]
      update_step_best_inv [of s i man objective]
    by (simp add: pso_wf_def)
  have 6: "pso_wf s' \<and> pso_best_inv s' \<and> ps_fy s' ! j \<le> ps_fy s ! j"
    if "pso_wf s" "pso_best_inv s" "pso_iteration rnd_rand self problem s = Inr s'"
    using pso_iteration_inv [OF that(3,1,2)] pso_iteration_props(2) [OF that(3)] by simp
  have 7: "pso_wf sf \<and> pso_best_inv sf \<and> ps_fy sf ! j \<le> ps_fy s ! j"
    if "pso_wf s" "pso_best_inv s"
      "pso_loop n check rnd_rand self problem s = Some (Inr (sf, r))"
    using pso_loop_inv [OF that(3,1,2)] pso_loop_lowers [OF that(3)] by simp
  have 8: "pso_best_inv sf \<and> xbest = ps_xbest sf \<and> ps_fy sf ! j \<le> ps_fy s0 ! j"
    if i: "pso_init self problem x wd = Inr s0"
      and r: "ParticleSwarm_solve n check rnd_rand self problem x wd = Some (Inr (xbest, r, sf))"
  proof -
    from r have l: "pso_loop n check rnd_rand self problem s0 = Some (Inr (sf, r))"
      and x: "xbest = ps_xbest sf"
      unfolding ParticleSwarm_solve_def i
      by (auto split: option.splits sum.splits)
    from pso_init_props(1,2) [OF i] have "pso_wf s0" "pso_best_inv s0" .
    from pso_loop_inv [OF l this] pso_loop_lowers [OF l] x show ?thesis by simp
  qed
  have 9: "ps_fbest s = Min (set (ps_fy s)) \<and>
              (\<exists>k<length (ps_x s). ps_fy s ! k = ps_fbest s \<and> ps_y s ! k = ps_xbest s)"
    if "pso_wf s" "pso_best_inv s"
  proof -
    from that(2) have "ps_fbest s = Min (set (ps_fy s))"
      and "(ps_fbest s, ps_xbest s) \<in> set (zip (ps_fy s) (ps_y s))"
      unfolding pso_best_inv_def by blast+
    moreover from that(1) have "length (ps_fy s) = length (ps_x s)"
      by (simp add: pso_wf_def)
    ultimately show ?thesis by (auto simp: in_set_zip)
  qed
  show ?thesis
    using 1 2 3 6 7 8 9 velocity_step_same(5) [of rnd_rand man self w i s]
      update_step_fy [of man objective i s j]
    by blast
qed

theorem global_best_is_least_personal_best_witness:
  "pso_wf swarm_start \<and> pso_best_inv swarm_start
   \<and> pso_best_inv (pso_velocity_step rnd_tenth real_line swarm_solver 1 0 swarm_start)
   \<and> pso_best_inv (pso_update_step real_line (problem_cost square_problem) 0 swarm_start)
   \<and> pso_best_inv swarm_first
   \<and> pso_best_inv swarm_end \<and> 4 / 5 = ps_xbest swarm_end
   \<and> ps_fy swarm_end ! 0 \<le> ps_fy swarm_start ! 0
   \<and> ps_fbest swarm_start = Min (set (ps_fy swarm_start))"
proof -
  note run = global_best_is_least_personal_best
    [where self = swarm_solver and problem = square_problem and x = "X_list [0]" and wd = 0
      and ?s0.0 = swarm_start and s = swarm_start
      and rnd_rand = rnd_tenth and check = pso_stop
      and n = "Suc (Suc (Suc 0))" and xbest = "4 / 5"
      and r = "''Terminated - max cost evals reached''" and sf = swarm_end and j = 0
      and man = real_line and objective = "problem_cost square_problem" and i = 0 and w = 1]
  have i: "0 < length (ps_x swarm_start)" by (simp add: swarm_start_def)
  from run swarm_init have a: "pso_wf swarm_start \<and> pso_best_inv swarm_start"
    by blast
  from run a
  have v: "pso_best_inv (pso_velocity_step rnd_tenth real_line swarm_solver 1 0 swarm_start)"
    by blast
  from run a i
  have u: "pso_best_inv (pso_update_step real_line (problem_cost square_problem) 0 swarm_start)"
    by blast
  from run a swarm_loop
  have l: "pso_best_inv swarm_end \<and> ps_fy swarm_end ! 0 \<le> ps_fy swarm_start ! 0"
    by blast
  from run swarm_init swarm_solve
  have b: "4 / 5 = ps_xbest swarm_end"
    by blast
  from run a have m: "ps_fbest swarm_start = Min (set (ps_fy swarm_start))"
    by blast
  note pass = global_best_is_least_personal_best
    [where self = swarm_solver and problem = square_problem
      and s = "swarm_start\<lparr> ps_iter := 1 \<rparr>" and s' = swarm_first and rnd_rand = rnd_tenth]
  from a have "pso_wf (swarm_start\<lparr> ps_iter := 1 \<rparr>)
      \<and> pso_best_inv (swarm_start\<lparr> ps_iter := 1 \<rparr>)"
    by simp
  with pass swarm_first_pass have p: "pso_best_inv swarm_first"
    by blast
  from a v u p l b m show ?thesis by blast
qed

section \<open>Particle swarm: the count of cost evaluations\<close>

text \<open>
  C10. Before the loop \<^verbatim>\<open>costevals\<close> is the population size, and so it is at the
  first stopping test. At every stopping test, in pass number \<^verbatim>\<open>iter\<close>, \<^verbatim>\<open>costevals\<close> is
  \<^verbatim>\<open>populationsize * iter\<close> and is the number of calls of the objective made so far. A
  completed pass adds the population size to both. So \<^verbatim>\<open>solve\<close>, which leaves the loop
  at a stopping test, ends with these equalities.
\<close>

theorem costevals_counts_objective_calls:
  fixes s0 c s' sf :: "('p, 'v::real_vector, 'w) pso_state"
    and problem :: "('p, 'v, 'w) problem"
  assumes init: "pso_init self problem x wd = Inr s0"
  shows "ps_costevals s0 = ps_populationsize s0
         \<and> int (ps_objective_calls s0) = ps_costevals s0
         \<and> (pso_at_check check rnd_rand self problem s0 c \<longrightarrow>
              ps_costevals c = ps_populationsize c * ps_iter c
              \<and> int (ps_objective_calls c) = ps_costevals c
              \<and> ps_populationsize c = ps_populationsize s0
              \<and> (ps_iter c = 1 \<longrightarrow> ps_costevals c = ps_populationsize c)
              \<and> (pso_iteration rnd_rand self problem (c\<lparr> ps_world := wd' \<rparr>) = Inr s' \<longrightarrow>
                   ps_costevals s' = ps_costevals c + ps_populationsize c
                   \<and> int (ps_objective_calls s')
                       = int (ps_objective_calls c) + ps_populationsize c))
         \<and> (pso_loop n check rnd_rand self problem s0 = Some (Inr (sf, r)) \<longrightarrow>
              ps_costevals sf = ps_populationsize sf * ps_iter sf
              \<and> int (ps_objective_calls sf) = ps_costevals sf)"
proof -
  note i = pso_init_props [OF init]
  have wf0: "int (length (ps_x s0)) = ps_populationsize s0"
    using i(1) by (simp add: pso_wf_def)
  have 1: "ps_costevals s0 = ps_populationsize s0" by (rule i(4))
  have 2: "int (ps_objective_calls s0) = ps_costevals s0"
    using i(4,5) wf0 by simp
  have at: "pso_wf c \<and> pso_best_inv c \<and>
         ps_costevals c = ps_populationsize c * ps_iter c \<and>
         int (ps_objective_calls c) = ps_costevals c \<and>
         ps_populationsize c = ps_populationsize s0 \<and> 1 \<le> ps_iter c"
    if "pso_at_check check rnd_rand self problem s0 c" for c
    using at_check_counts [OF that i(1,2,3,4,5)] .
  have 3: "ps_costevals c = ps_populationsize c * ps_iter c
              \<and> int (ps_objective_calls c) = ps_costevals c
              \<and> ps_populationsize c = ps_populationsize s0
              \<and> (ps_iter c = 1 \<longrightarrow> ps_costevals c = ps_populationsize c)
              \<and> (pso_iteration rnd_rand self problem (c\<lparr> ps_world := wd' \<rparr>) = Inr s' \<longrightarrow>
                   ps_costevals s' = ps_costevals c + ps_populationsize c
                   \<and> int (ps_objective_calls s')
                       = int (ps_objective_calls c) + ps_populationsize c)"
    if c: "pso_at_check check rnd_rand self problem s0 c"
  proof -
    from at [OF c] have a: "pso_wf c" "ps_costevals c = ps_populationsize c * ps_iter c"
      "int (ps_objective_calls c) = ps_costevals c"
      "ps_populationsize c = ps_populationsize s0"
      by simp_all
    have len: "int (length (ps_x c)) = ps_populationsize c"
      using a(1) by (simp add: pso_wf_def)
    have "ps_costevals s' = ps_costevals c + ps_populationsize c
          \<and> int (ps_objective_calls s') = int (ps_objective_calls c) + ps_populationsize c"
      if it: "pso_iteration rnd_rand self problem (c\<lparr> ps_world := wd' \<rparr>) = Inr s'"
      using pso_iteration_props(3,9) [OF it] len by simp
    with a show ?thesis by simp
  qed
  have 4: "ps_costevals sf = ps_populationsize sf * ps_iter sf
              \<and> int (ps_objective_calls sf) = ps_costevals sf"
    if l: "pso_loop n check rnd_rand self problem s0 = Some (Inr (sf, r))"
  proof -
    from pso_loop_stops_at_check [OF l] obtain c where
      c: "pso_at_check check rnd_rand self problem s0 c"
      and e: "ps_costevals sf = ps_costevals c" "ps_iter sf = ps_iter c"
        "ps_objective_calls sf = ps_objective_calls c"
        "ps_populationsize sf = ps_populationsize c"
      by blast
    from at [OF c] e show ?thesis by simp
  qed
  show ?thesis using 1 2 3 4 by blast
qed

theorem costevals_counts_objective_calls_witness:
  "ps_costevals swarm_start = ps_populationsize swarm_start
   \<and> ps_costevals swarm_first = ps_costevals swarm_start + ps_populationsize swarm_start
   \<and> ps_costevals (swarm_first\<lparr> ps_iter := 2 \<rparr>)
       = ps_populationsize (swarm_first\<lparr> ps_iter := 2 \<rparr>) * ps_iter (swarm_first\<lparr> ps_iter := 2 \<rparr>)
   \<and> int (ps_objective_calls (swarm_first\<lparr> ps_iter := 2 \<rparr>))
       = ps_costevals (swarm_first\<lparr> ps_iter := 2 \<rparr>)
   \<and> ps_costevals swarm_end = ps_populationsize swarm_end * ps_iter swarm_end
   \<and> int (ps_objective_calls swarm_end) = ps_costevals swarm_end"
proof -
  note run = costevals_counts_objective_calls
    [OF swarm_init, where check = pso_stop and rnd_rand = rnd_tenth
      and c = "swarm_first\<lparr> ps_iter := 2 \<rparr>" and n = "Suc (Suc (Suc 0))" and sf = swarm_end
      and r = "''Terminated - max cost evals reached''"]
  from run have a: "ps_costevals swarm_start = ps_populationsize swarm_start"
    by blast
  from run swarm_second_check
  have b: "ps_costevals (swarm_first\<lparr> ps_iter := 2 \<rparr>)
       = ps_populationsize (swarm_first\<lparr> ps_iter := 2 \<rparr>) * ps_iter (swarm_first\<lparr> ps_iter := 2 \<rparr>)
   \<and> int (ps_objective_calls (swarm_first\<lparr> ps_iter := 2 \<rparr>))
       = ps_costevals (swarm_first\<lparr> ps_iter := 2 \<rparr>)"
    by blast
  from run swarm_loop
  have c: "ps_costevals swarm_end = ps_populationsize swarm_end * ps_iter swarm_end
   \<and> int (ps_objective_calls swarm_end) = ps_costevals swarm_end"
    by blast
  let ?c = "swarm_start\<lparr> ps_iter := ps_iter swarm_start + 1 \<rparr>"
  note first = costevals_counts_objective_calls
    [OF swarm_init, where check = pso_stop and rnd_rand = rnd_tenth
      and c = ?c and wd' = 1 and s' = swarm_first]
  have "pso_at_check pso_stop rnd_tenth swarm_solver square_problem swarm_start ?c"
    by (rule pso_at_check.first_pass)
  moreover have "pso_iteration rnd_tenth swarm_solver square_problem (?c\<lparr> ps_world := 1 \<rparr>)
      = Inr swarm_first"
    using swarm_first_pass by (simp add: swarm_start_def)
  ultimately have "ps_costevals swarm_first = ps_costevals ?c + ps_populationsize ?c"
    using first by blast
  then have d: "ps_costevals swarm_first
      = ps_costevals swarm_start + ps_populationsize swarm_start"
    by simp
  from a b c d show ?thesis by blast
qed

end
